theory Spec2Isabelle
  imports Complex_Main
begin

section \<open>Values, errors and components\<close>

text \<open>
  The grid container of \<^verbatim>\<open>src/table.ts\<close> (class \<^verbatim>\<open>Plottable.Table\<close>) is embedded
  here. JavaScript numbers are idealised as exact rationals; the three non-numbers that
  the code can produce or store in a numeric array are kept apart: \<open>NaN\<close>, \<open>null\<close> (an
  unset weight) and \<open>undefined\<close> (a hole of an array, a read past its end, or the
  maximum of an empty array).
\<close>

datatype jsval = Num rat | NaN | Null | Undefined

text \<open>
  The code throws \<^verbatim>\<open>new Error(message)\<close>; the constructors name the four messages as the
  specification does. \<open>TypeError\<close> is what the JavaScript runtime itself throws
  (\<^verbatim>\<open>reduce\<close> of an empty array with no initial value, a property read on \<^verbatim>\<open>undefined\<close>).
\<close>

datatype error =
    InvalidMutation    \<comment> \<open>"addComponent cannot be called after anchoring (for the moment)"\<close>
  | CellOccupied       \<comment> \<open>"addComponent cannot be called on a cell where a component already exists (for the moment)"\<close>
  | NotSettable        \<comment> \<open>"Row minimum cannot be directly set on Table" and the same for columns\<close>
  | InsufficientSpace  \<comment> \<open>"Insufficient Space"\<close>
  | TypeError

text \<open>
  Modelled from the spec: the class \<^verbatim>\<open>Component\<close> (file \<^verbatim>\<open>component.ts\<close>, not part of the
  sources at hand). A child is what it answers to the four queries the table makes:
  \<^verbatim>\<open>rowMinimum()\<close>, \<^verbatim>\<open>colMinimum()\<close>, \<^verbatim>\<open>isFixedWidth()\<close>, \<^verbatim>\<open>isFixedHeight()\<close>, together with
  whether its constructor is the base class itself (\<^verbatim>\<open>constructor.name === "Component"\<close>),
  which is how the table recognises a placeholder. \<^verbatim>\<open>new Component()\<close> has minimum size
  zero and is fixed in both axes.
\<close>

datatype component = Component
  (isBaseComponent: bool)
  (comp_rowMinimum: rat)
  (comp_colMinimum: rat)
  (comp_isFixedWidth: bool)
  (comp_isFixedHeight: bool)

definition new_Component :: component where
  "new_Component = Component True 0 0 True True"

datatype selection = Selection nat

section \<open>The library functions the table calls\<close>

text \<open>
  \<^verbatim>\<open>d3.sum(array)\<close> adds the entries that are numbers after coercion: \<^verbatim>\<open>+null\<close> is 0,
  \<^verbatim>\<open>+undefined\<close> and \<open>NaN\<close> are skipped.
\<close>

fun d3_sum :: "jsval list \<Rightarrow> rat" where
  "d3_sum [] = 0"
| "d3_sum (Num x # vs) = x + d3_sum vs"
| "d3_sum (v # vs) = d3_sum vs"

text \<open>\<^verbatim>\<open>d3.max(array, f)\<close>: the largest value, \<^verbatim>\<open>undefined\<close> for an empty array.\<close>

fun d3_max :: "rat list \<Rightarrow> jsval" where
  "d3_max [] = Undefined"
| "d3_max (x # xs) = Num (fold max xs x)"

text \<open>
  \<^verbatim>\<open>d3.transpose(matrix)\<close> is \<^verbatim>\<open>d3.zip.apply(d3, matrix)\<close>: no rows give no columns, and the
  number of columns is the length of the shortest row.
\<close>

fun d3_zipLength :: "'a list list \<Rightarrow> nat" where
  "d3_zipLength [] = 0"
| "d3_zipLength (r # rs) = fold min (map length rs) (length r)"

definition d3_transpose :: "'a list list \<Rightarrow> 'a list list" where
  "d3_transpose matrix = map (\<lambda>i. map (\<lambda>r. r ! i) matrix) [0..<d3_zipLength matrix]"

text \<open>\<^verbatim>\<open>array.map(f)\<close> on an array of numbers: a hole is skipped and stays a hole.\<close>

definition js_map :: "(jsval \<Rightarrow> jsval) \<Rightarrow> jsval list \<Rightarrow> jsval list" where
  "js_map f vs = map (\<lambda>v. if v = Undefined then Undefined else f v) vs"

text \<open>\<^verbatim>\<open>array[i]\<close> and \<^verbatim>\<open>array[i] = v\<close>: a read past the end is \<^verbatim>\<open>undefined\<close>, a write
  past the end extends the array and leaves holes.\<close>

definition js_nth :: "jsval list \<Rightarrow> nat \<Rightarrow> jsval" where
  "js_nth vs i = (if i < length vs then vs ! i else Undefined)"

definition js_set :: "jsval list \<Rightarrow> nat \<Rightarrow> jsval \<Rightarrow> jsval list" where
  "js_set vs i v =
     (if i < length vs then vs[i := v]
      else vs @ replicate (i - length vs) Undefined @ [v])"

text \<open>\<open>a + b\<close> on numbers that may be \<^verbatim>\<open>undefined\<close> or \<open>NaN\<close>.\<close>

fun js_plus :: "jsval \<Rightarrow> jsval \<Rightarrow> jsval" where
  "js_plus (Num a) (Num b) = Num (a + b)"
| "js_plus (Num a) Null = Num a"
| "js_plus Null (Num b) = Num b"
| "js_plus Null Null = Num 0"
| "js_plus a b = NaN"

section \<open>Proportional space\<close>

text \<open>\<^verbatim>\<open>freeSpace * w / weightSum\<close> for an entry \<open>w\<close> of the weight array.\<close>

fun js_share :: "rat \<Rightarrow> rat \<Rightarrow> jsval \<Rightarrow> jsval" where
  "js_share freeSpace weightSum (Num w) = Num (freeSpace * w / weightSum)"
| "js_share freeSpace weightSum Null = Num 0"
| "js_share freeSpace weightSum v = NaN"

definition calcProportionalSpace :: "jsval list \<Rightarrow> rat \<Rightarrow> jsval list" where
  "calcProportionalSpace weights freeSpace =
     (let weightSum = d3_sum weights in
      if weightSum = 0 then
        (let numGroups = length weights in
         js_map (\<lambda>w. Num (freeSpace / of_nat numGroups)) weights)
      else js_map (js_share freeSpace weightSum) weights)"

text \<open>
  What the specification says of the allocator, on a weight array of numbers: an even
  split when the weights add up to zero, a split in proportion to the weights otherwise.
\<close>

definition proportional_shares :: "rat list \<Rightarrow> rat \<Rightarrow> rat list" where
  "proportional_shares w freeSpace =
     (if sum_list w = 0 then map (\<lambda>x. freeSpace / of_nat (length w)) w
      else map (\<lambda>x. freeSpace * x / sum_list w) w)"

section \<open>Fixity and weights\<close>

text \<open>\<^verbatim>\<open>bools.reduce((a, b) => a && b)\<close>: with no initial value, an empty array throws.\<close>

definition js_all :: "bool list \<Rightarrow> error + bool" where
  "js_all bools = (case bools of [] \<Rightarrow> Inl TypeError | b # bs \<Rightarrow> Inr (foldl (\<and>) b bs))"

text \<open>\<^verbatim>\<open>array.map(f)\<close> with a callback that may throw: the first throw ends the map.\<close>

fun js_map_throwing :: "('a \<Rightarrow> error + 'b) \<Rightarrow> 'a list \<Rightarrow> error + 'b list" where
  "js_map_throwing f [] = Inr []"
| "js_map_throwing f (x # xs) =
     (case f x of
        Inl e \<Rightarrow> Inl e
      | Inr y \<Rightarrow> (case js_map_throwing f xs of Inl e \<Rightarrow> Inl e | Inr ys \<Rightarrow> Inr (y # ys)))"

definition groupIsFixed :: "(component \<Rightarrow> bool) \<Rightarrow> component list \<Rightarrow> error + bool" where
  "groupIsFixed fixityAccessor components = js_all (map fixityAccessor components)"

definition fixedSpace :: "component list list \<Rightarrow> (component \<Rightarrow> bool) \<Rightarrow> error + bool" where
  "fixedSpace componentGroup fixityAccessor =
     (case js_map_throwing (groupIsFixed fixityAccessor) componentGroup of
        Inl e \<Rightarrow> Inl e
      | Inr bools \<Rightarrow> js_all bools)"

text \<open>
  The callback of \<^verbatim>\<open>setWeights.map((w, i) => ...)\<close> in \<^verbatim>\<open>calcComponentWeights\<close>. A hole of
  \<^verbatim>\<open>setWeights\<close> is skipped by \<^verbatim>\<open>map\<close> and stays a hole; \<^verbatim>\<open>componentGroups[i]\<close> past the
  end is \<^verbatim>\<open>undefined\<close>, whose \<^verbatim>\<open>map\<close> cannot be read.
\<close>

definition componentWeight ::
  "component list list \<Rightarrow> (component \<Rightarrow> bool) \<Rightarrow> jsval \<times> nat \<Rightarrow> error + jsval" where
  "componentWeight componentGroups fixityAccessor wi =
     (case wi of (w, i) \<Rightarrow>
        if w = Undefined then Inr Undefined
        else if w \<noteq> Null then Inr w
        else if i < length componentGroups then
          (case js_all (map fixityAccessor (componentGroups ! i)) of
             Inl e \<Rightarrow> Inl e
           | Inr allFixed \<Rightarrow> Inr (Num (if allFixed then 0 else 1)))
        else Inl TypeError)"

definition calcComponentWeights ::
  "jsval list \<Rightarrow> component list list \<Rightarrow> (component \<Rightarrow> bool) \<Rightarrow> error + jsval list" where
  "calcComponentWeights setWeights componentGroups fixityAccessor =
     js_map_throwing (componentWeight componentGroups fixityAccessor)
       (zip setWeights [0..<length setWeights])"

section \<open>The table\<close>

text \<open>
  The fields of \<^verbatim>\<open>Table\<close>, and those of the base class that the table reads or writes:
  \<^verbatim>\<open>element\<close> (set by \<^verbatim>\<open>anchor\<close>) and the offset and available size that
  \<^verbatim>\<open>super.computeLayout\<close> records. The base class leaves the latter four unassigned until
  the first layout; \<open>0\<close> stands for that, and nothing here reads them before
  \<open>computeLayout\<close> has assigned them. The two caches are \<^verbatim>\<open>undefined\<close> (\<open>None\<close>) until
  the first minimum query.
\<close>

record table =
  element :: "selection option"
  xOffset :: rat
  yOffset :: rat
  availableWidth :: rat
  availableHeight :: rat
  rowPadding :: rat
  colPadding :: rat
  rows :: "component list list"
  rowMinimums :: "jsval list option"
  colMinimums :: "jsval list option"
  rowWeights :: "jsval list"
  colWeights :: "jsval list"
  nRows :: nat
  nCols :: nat

definition cleanOutNulls :: "component option \<Rightarrow> component" where
  "cleanOutNulls c = (case c of None \<Rightarrow> new_Component | Some x \<Rightarrow> x)"

text \<open>\<^verbatim>\<open>d3.max(rows, (r) => r.length)\<close>, called on a non-empty array only.\<close>

fun d3_max_length :: "'a list list \<Rightarrow> nat" where
  "d3_max_length [] = 0"
| "d3_max_length (r # rs) = fold max (map length rs) (length r)"

text \<open>The constructor; \<open>None\<close> in the argument is a \<^verbatim>\<open>null\<close> cell.\<close>

definition Table :: "component option list list \<Rightarrow> table" where
  "Table rows0 =
     (let rs = map (map cleanOutNulls) rows0 in
      \<lparr> element = None, xOffset = 0, yOffset = 0, availableWidth = 0, availableHeight = 0,
        rowPadding = 0, colPadding = 0,
        rows = rs,
        rowMinimums = None, colMinimums = None,
        rowWeights = map (\<lambda>r. Null) rs,
        colWeights = map (\<lambda>c. Null) (d3_transpose rs),
        nRows = length rs,
        nCols = (if length rs > 0 then d3_max_length rs else 0) \<rparr>)"

text \<open>
  \<^verbatim>\<open>padTableToSize\<close>. Both loops over the grid run upward from 0, so a row (or a slot)
  that is \<^verbatim>\<open>undefined\<close> is the one just past the end, and the arrays of components stay
  without holes. The weight arrays can have holes, left by the weight setters.
\<close>

definition padSlot :: "nat \<Rightarrow> component list \<Rightarrow> component list" where
  "padSlot j row = (if j < length row then row else row @ [new_Component])"

definition padRow :: "nat \<Rightarrow> nat \<Rightarrow> table \<Rightarrow> table" where
  "padRow nCols' i t =
     (let t1 = (if i < length (rows t) then t
                else t\<lparr> rows := rows t @ [[]], rowWeights := js_set (rowWeights t) i Null \<rparr>)
      in t1\<lparr> rows := (rows t1)[i := fold padSlot [0..<nCols'] (rows t1 ! i)] \<rparr>)"

definition padColWeight :: "nat \<Rightarrow> jsval list \<Rightarrow> jsval list" where
  "padColWeight j ws = (if js_nth ws j = Undefined then js_set ws j Null else ws)"

definition padTableToSize :: "nat \<Rightarrow> nat \<Rightarrow> table \<Rightarrow> table" where
  "padTableToSize nRows' nCols' t =
     (let t1 = fold (padRow nCols') [0..<nRows'] t
      in t1\<lparr> colWeights := fold padColWeight [0..<nCols'] (colWeights t1) \<rparr>)"

text \<open>
  \<^verbatim>\<open>addComponent\<close>: the result is the error thrown, if any, and the table as the call
  leaves it (the padding is done before the second check). \<^verbatim>\<open>this.rows[row][col]\<close> is
  read with the out-of-range case written out.
\<close>

definition addComponent :: "nat \<Rightarrow> nat \<Rightarrow> component \<Rightarrow> table \<Rightarrow> (error + unit) \<times> table" where
  "addComponent row col component t =
     (if element t \<noteq> None then (Inl InvalidMutation, t)
      else
        let t1 = t\<lparr> nRows := max row (nRows t) \<rparr>;
            t2 = t1\<lparr> nCols := max col (nCols t1) \<rparr>;
            t3 = padTableToSize (nRows t2 + 1) (nCols t2 + 1) t2
        in if row < length (rows t3) \<and> col < length (rows t3 ! row) then
             (let currentComponent = rows t3 ! row ! col in
              if \<not> isBaseComponent currentComponent then (Inl CellOccupied, t3)
              else (Inr (), t3\<lparr> rows := (rows t3)[row := (rows t3 ! row)[col := component]] \<rparr>))
           else (Inl TypeError, t3))"

text \<open>\<^verbatim>\<open>anchor\<close>, as far as the table's own state goes: \<^verbatim>\<open>super.anchor\<close> records the element.\<close>

definition anchor :: "selection \<Rightarrow> table \<Rightarrow> table" where
  "anchor e t = t\<lparr> element := Some e \<rparr>"

definition padding :: "rat \<Rightarrow> rat \<Rightarrow> table \<Rightarrow> table" where
  "padding rp cp t = t\<lparr> rowPadding := rp, colPadding := cp \<rparr>"

definition rowWeight :: "nat \<Rightarrow> rat \<Rightarrow> table \<Rightarrow> table" where
  "rowWeight index weight t = t\<lparr> rowWeights := js_set (rowWeights t) index (Num weight) \<rparr>"

definition colWeight :: "nat \<Rightarrow> rat \<Rightarrow> table \<Rightarrow> table" where
  "colWeight index weight t = t\<lparr> colWeights := js_set (colWeights t) index (Num weight) \<rparr>"

section \<open>Minimum sizes and fixity of the table\<close>

text \<open>
  The getter branch of \<^verbatim>\<open>rowMinimum\<close> and \<^verbatim>\<open>colMinimum\<close>: the value returned and the table
  with its cache written.
\<close>

definition getRowMinimum :: "table \<Rightarrow> rat \<times> table" where
  "getRowMinimum t =
     (let ms = map (\<lambda>row. d3_max (map comp_rowMinimum row)) (rows t);
          t' = t\<lparr> rowMinimums := Some ms \<rparr>
      in (d3_sum ms + rowPadding t' * (of_nat (length (rows t')) - 1), t'))"

definition getColMinimum :: "table \<Rightarrow> rat \<times> table" where
  "getColMinimum t =
     (let cols = d3_transpose (rows t);
          ms = map (\<lambda>col. d3_max (map comp_colMinimum col)) cols;
          t' = t\<lparr> colMinimums := Some ms \<rparr>
      in (d3_sum ms + colPadding t' * (of_nat (length cols) - 1), t'))"

text \<open>\<open>None\<close> is the call with no argument (or with \<^verbatim>\<open>null\<close>).\<close>

definition rowMinimum :: "rat option \<Rightarrow> table \<Rightarrow> (error + rat) \<times> table" where
  "rowMinimum newVal t =
     (if newVal \<noteq> None then (Inl NotSettable, t)
      else (case getRowMinimum t of (v, t') \<Rightarrow> (Inr v, t')))"

definition colMinimum :: "rat option \<Rightarrow> table \<Rightarrow> (error + rat) \<times> table" where
  "colMinimum newVal t =
     (if newVal \<noteq> None then (Inl NotSettable, t)
      else (case getColMinimum t of (v, t') \<Rightarrow> (Inr v, t')))"

definition isFixedWidth :: "table \<Rightarrow> error + bool" where
  "isFixedWidth t = (let cols = d3_transpose (rows t) in fixedSpace cols comp_isFixedWidth)"

definition isFixedHeight :: "table \<Rightarrow> error + bool" where
  "isFixedHeight t = fixedSpace (rows t) comp_isFixedHeight"

section \<open>Layout\<close>

text \<open>
  Modelled from the spec: \<^verbatim>\<open>Component.computeLayout\<close> of the base class, which the table
  calls first. It records the offset and the available size it is given.
\<close>

definition super_computeLayout :: "rat \<Rightarrow> rat \<Rightarrow> rat \<Rightarrow> rat \<Rightarrow> table \<Rightarrow> table" where
  "super_computeLayout x y w h t =
     t\<lparr> xOffset := x, yOffset := y, availableWidth := w, availableHeight := h \<rparr>"

text \<open>
  A child's \<^verbatim>\<open>computeLayout(xOffset, yOffset, availableWidth, availableHeight)\<close> is an
  effect on the child; the model records each call with its arguments, row by row in the
  order the two \<^verbatim>\<open>forEach\<close> loops make them.
\<close>

datatype layout_call = ComputeLayout
  (call_target: component)
  (call_xOffset: jsval)
  (call_yOffset: jsval)
  (call_width: jsval)
  (call_height: jsval)

fun layoutCells ::
  "component list \<Rightarrow> nat \<Rightarrow> jsval \<Rightarrow> jsval \<Rightarrow> jsval list \<Rightarrow> jsval \<Rightarrow> rat \<Rightarrow> layout_call list" where
  "layoutCells [] colIndex childXOffset childYOffset colWidths rowHeight cp = []"
| "layoutCells (component # row) colIndex childXOffset childYOffset colWidths rowHeight cp =
     ComputeLayout component childXOffset childYOffset (js_nth colWidths colIndex) rowHeight
     # layoutCells row (Suc colIndex)
         (js_plus childXOffset (js_plus (js_nth colWidths colIndex) (Num cp)))
         childYOffset colWidths rowHeight cp"

fun layoutRows ::
  "component list list \<Rightarrow> nat \<Rightarrow> jsval \<Rightarrow> jsval list \<Rightarrow> jsval list \<Rightarrow> rat \<Rightarrow> rat
     \<Rightarrow> layout_call list list" where
  "layoutRows [] rowIndex childYOffset colWidths rowHeights rp cp = []"
| "layoutRows (row # rs) rowIndex childYOffset colWidths rowHeights rp cp =
     layoutCells row 0 (Num 0) childYOffset colWidths (js_nth rowHeights rowIndex) cp
     # layoutRows rs (Suc rowIndex)
         (js_plus childYOffset (js_plus (js_nth rowHeights rowIndex) (Num rp)))
         colWidths rowHeights rp cp"

definition sumPair :: "jsval \<times> jsval \<Rightarrow> jsval" where
  "sumPair p = js_plus (fst p) (snd p)"

text \<open>
  \<^verbatim>\<open>d3.zip(a, this.rowMinimums)\<close> has the length of the shorter array; on an
  \<^verbatim>\<open>undefined\<close> second argument it cannot read the length.
\<close>

definition zipMinimums :: "jsval list \<Rightarrow> jsval list option \<Rightarrow> error + jsval list" where
  "zipMinimums proportionalSpace minimums =
     (case minimums of
        None \<Rightarrow> Inl TypeError
      | Some ms \<Rightarrow> Inr (map sumPair (zip proportionalSpace ms)))"

definition computeLayout ::
  "rat \<Rightarrow> rat \<Rightarrow> rat \<Rightarrow> rat \<Rightarrow> table \<Rightarrow> (error + layout_call list list) \<times> table" where
  "computeLayout x y w h t =
     (let t1 = super_computeLayout x y w h t;
          (cm, t2) = getColMinimum t1;
          freeWidth = availableWidth t2 - cm;
          (rm, t3) = getRowMinimum t2;
          freeHeight = availableHeight t3 - rm
      in if freeWidth < 0 \<or> freeHeight < 0 then (Inl InsufficientSpace, t3)
         else
           let cols = d3_transpose (rows t3) in
           case calcComponentWeights (rowWeights t3) (rows t3) comp_isFixedHeight of
             Inl e \<Rightarrow> (Inl e, t3)
           | Inr rowWeights' \<Rightarrow>
           (case calcComponentWeights (colWeights t3) cols comp_isFixedWidth of
             Inl e \<Rightarrow> (Inl e, t3)
           | Inr colWeights' \<Rightarrow>
           (let rowProportionalSpace = calcProportionalSpace rowWeights' freeHeight;
                colProportionalSpace = calcProportionalSpace colWeights' freeWidth
            in case zipMinimums rowProportionalSpace (rowMinimums t3) of
                 Inl e \<Rightarrow> (Inl e, t3)
               | Inr rowHeights \<Rightarrow>
               (case zipMinimums colProportionalSpace (colMinimums t3) of
                 Inl e \<Rightarrow> (Inl e, t3)
               | Inr colWidths \<Rightarrow>
                 (Inr (layoutRows (rows t3) 0 (Num 0) colWidths rowHeights
                         (rowPadding t3) (colPadding t3)), t3)))))"

section \<open>The specification's vocabulary\<close>

text \<open>
  The definitions of this section do not come from the code. They say, in the words of the
  specification, what the code is compared with: the grid a layout is specified for, the
  minimum of a row or column, the weight it resolves to, and its final size.
\<close>

text \<open>A weight entry is a number or unset; a hole or \<open>NaN\<close> is neither.\<close>

fun is_weight :: "jsval \<Rightarrow> bool" where
  "is_weight (Num w) = True"
| "is_weight Null = True"
| "is_weight v = False"

text \<open>
  The grid of the data model: every row has one slot per column and at least one, and
  there is one weight entry per row and per column.
\<close>

definition layout_ok :: "table \<Rightarrow> bool" where
  "layout_ok t \<longleftrightarrow>
     (\<forall>r\<in>set (rows t). r \<noteq> [] \<and> length r = length (colWeights t))
     \<and> (rows t = [] \<longrightarrow> colWeights t = [])
     \<and> length (rowWeights t) = length (rows t)
     \<and> (\<forall>v\<in>set (rowWeights t). is_weight v)
     \<and> (\<forall>v\<in>set (colWeights t). is_weight v)"

text \<open>
  The counters \<^verbatim>\<open>nRows\<close> and \<^verbatim>\<open>nCols\<close> are the largest index \<open>addComponent\<close> has padded
  for, or the sizes the constructor has seen: the grid never exceeds them by more than one.
\<close>

definition counters_cover :: "table \<Rightarrow> bool" where
  "counters_cover t \<longleftrightarrow>
     length (rows t) \<le> nRows t + 1 \<and> (\<forall>r\<in>set (rows t). length r \<le> nCols t + 1)"

text \<open>
  The weight arrays as the constructor and \<open>addComponent\<close> keep them: one entry per row,
  no column weight stored further than one past \<^verbatim>\<open>nCols\<close>, and no entry that is not a weight,
  but for holes among the column weights.
\<close>

definition weights_cover :: "table \<Rightarrow> bool" where
  "weights_cover t \<longleftrightarrow>
     length (rowWeights t) = length (rows t)
     \<and> length (colWeights t) \<le> nCols t + 1
     \<and> (\<forall>v\<in>set (rowWeights t). is_weight v)
     \<and> (\<forall>v\<in>set (colWeights t). is_weight v \<or> v = Undefined)"

text \<open>
  The minimum of a row or column is the largest minimum of its components. A group with no
  component has none, and adds nothing to the total.
\<close>

definition group_minimum :: "(component \<Rightarrow> rat) \<Rightarrow> component list \<Rightarrow> rat" where
  "group_minimum f g = (if g = [] then 0 else Max (set (map f g)))"

definition row_minimums :: "table \<Rightarrow> rat list" where
  "row_minimums t = map (group_minimum comp_rowMinimum) (rows t)"

definition col_minimums :: "table \<Rightarrow> rat list" where
  "col_minimums t = map (group_minimum comp_colMinimum) (d3_transpose (rows t))"

definition total_rowMinimum :: "table \<Rightarrow> rat" where
  "total_rowMinimum t = sum_list (row_minimums t) + rowPadding t * (of_nat (length (rows t)) - 1)"

definition total_colMinimum :: "table \<Rightarrow> rat" where
  "total_colMinimum t =
     sum_list (col_minimums t) + colPadding t * (of_nat (length (d3_transpose (rows t))) - 1)"

text \<open>The weight of a row or column: the one set, else 0 when all its components are fixed, else 1.\<close>

definition resolved_weight :: "(component \<Rightarrow> bool) \<Rightarrow> jsval \<Rightarrow> component list \<Rightarrow> rat" where
  "resolved_weight fixed w g =
     (case w of Num x \<Rightarrow> x | _ \<Rightarrow> if (\<forall>c\<in>set g. fixed c) then 0 else 1)"

definition row_weights :: "table \<Rightarrow> rat list" where
  "row_weights t = map (\<lambda>(w, g). resolved_weight comp_isFixedHeight w g) (zip (rowWeights t) (rows t))"

definition col_weights :: "table \<Rightarrow> rat list" where
  "col_weights t =
     map (\<lambda>(w, g). resolved_weight comp_isFixedWidth w g) (zip (colWeights t) (d3_transpose (rows t)))"

text \<open>The final size: the share of the free space plus the minimum.\<close>

definition row_heights :: "table \<Rightarrow> rat \<Rightarrow> rat list" where
  "row_heights t h =
     map (\<lambda>(p, m). p + m)
       (zip (proportional_shares (row_weights t) (h - total_rowMinimum t)) (row_minimums t))"

definition col_widths :: "table \<Rightarrow> rat \<Rightarrow> rat list" where
  "col_widths t w =
     map (\<lambda>(p, m). p + m)
       (zip (proportional_shares (col_weights t) (w - total_colMinimum t)) (col_minimums t))"

text \<open>
  The final sizes as the code computes them, on arrays that may hold holes: the share plus
  the minimum, entry by entry. And the running offset before cell \<open>n\<close>: it starts at 0 and
  grows by a size and one padding per cell passed.
\<close>

definition final_sizes :: "jsval list \<Rightarrow> rat \<Rightarrow> jsval list \<Rightarrow> jsval list" where
  "final_sizes weights freeSpace minimums =
     map sumPair (zip (calcProportionalSpace weights freeSpace) minimums)"

fun running_offset :: "jsval list \<Rightarrow> rat \<Rightarrow> nat \<Rightarrow> jsval" where
  "running_offset sizes pad 0 = Num 0"
| "running_offset sizes pad (Suc n) =
     js_plus (running_offset sizes pad n) (js_plus (js_nth sizes n) (Num pad))"

text \<open>The table after a layout call: what \<open>computeLayout\<close> writes before it checks the space.\<close>

definition laid_out :: "rat \<Rightarrow> rat \<Rightarrow> rat \<Rightarrow> rat \<Rightarrow> table \<Rightarrow> table" where
  "laid_out x y w h t =
     t\<lparr> xOffset := x, yOffset := y, availableWidth := w, availableHeight := h,
        colMinimums := Some (map (\<lambda>col. d3_max (map comp_colMinimum col)) (d3_transpose (rows t))),
        rowMinimums := Some (map (\<lambda>row. d3_max (map comp_rowMinimum row)) (rows t)) \<rparr>"

text \<open>A row padded to \<open>n\<close> slots, row \<open>i\<close> of a grid after \<open>k\<close> rounds of the row loop, and the
  table \<open>addComponent\<close> has padded.\<close>

definition padded :: "nat \<Rightarrow> component list \<Rightarrow> component list" where
  "padded n row = row @ replicate (n - length row) new_Component"

definition padded_row :: "nat \<Rightarrow> nat \<Rightarrow> component list list \<Rightarrow> nat \<Rightarrow> component list" where
  "padded_row n k rs i =
     (if i < length rs then (if i < k then padded n (rs ! i) else rs ! i)
      else replicate n new_Component)"

definition grown :: "nat \<Rightarrow> nat \<Rightarrow> table \<Rightarrow> table" where
  "grown row col t =
     padTableToSize (max row (nRows t) + 1) (max col (nCols t) + 1)
       (t\<lparr> nRows := max row (nRows t), nCols := max col (nCols t) \<rparr>)"

text \<open>
  Four leaves with the minimum sizes of the specification's example scenario, two of them
  fixed in some axis, and the two-by-two table of them.
\<close>

definition leafA :: component where "leafA = Component False 10 10 False False"

definition leafB :: component where "leafB = Component False 10 20 False False"

definition leafC :: component where "leafC = Component False 30 10 True True"

definition leafD :: component where "leafD = Component False 30 20 False True"

definition example_table :: table where
  "example_table = Table [[Some leafA, Some leafB], [Some leafC, Some leafD]]"

text \<open>
  The example scenario itself: components of minimum sizes (width, height) that are fixed in
  no axis, with no padding and no weight set.
\<close>

definition flexible :: "rat \<Rightarrow> rat \<Rightarrow> component" where
  "flexible w h = Component False h w False False"

definition scenario_table :: table where
  "scenario_table = Table [[Some (flexible 10 10), Some (flexible 20 10)],
                           [Some (flexible 10 30), Some (flexible 20 30)]]"

section \<open>Facts about the library functions\<close>

lemma fold_min_const: "(\<forall>x\<in>set xs. x = n) \<Longrightarrow> fold min xs (n::nat) = n"
  by (induction xs) simp_all

lemma zipLength_rect:
  assumes "\<forall>r\<in>set g. length r = n" "g = [] \<longrightarrow> n = 0"
  shows "d3_zipLength g = n"
proof (cases g)
  case Nil
  then show ?thesis using assms by simp
next
  case (Cons r rs)
  then have "length r = n" "\<forall>x\<in>set (map length rs). x = n" using assms by auto
  then show ?thesis using Cons fold_min_const [of "map length rs" n] by simp
qed

lemma length_transpose: "layout_ok t \<Longrightarrow> length (d3_transpose (rows t)) = length (colWeights t)"
  using zipLength_rect [of "rows t" "length (colWeights t)"]
  by (simp add: layout_ok_def d3_transpose_def)

lemma transpose_nonempty: "\<forall>g\<in>set (d3_transpose m). g \<noteq> []"
  by (cases m) (auto simp add: d3_transpose_def)


lemma d3_max_Max:
  assumes "xs \<noteq> []"
  shows "d3_max xs = Num (Max (set xs))"
proof (cases xs)
  case Nil
  then show ?thesis using assms by simp
next
  case (Cons a as)
  then show ?thesis using Max.set_eq_fold [of a as] by simp
qed

lemma d3_max_group: "d3_sum (map (\<lambda>g. d3_max (map f g)) gs) = sum_list (map (group_minimum f) gs)"
proof (induction gs)
  case Nil
  then show ?case by simp
next
  case (Cons g gs)
  then show ?case by (cases "g = []") (simp_all add: group_minimum_def d3_max_Max)
qed

lemma d3_max_groups_Num:
  "(\<forall>g\<in>set gs. g \<noteq> []) \<Longrightarrow> map (\<lambda>g. d3_max (map f g)) gs = map Num (map (group_minimum f) gs)"
  by (simp add: group_minimum_def d3_max_Max)

lemma d3_sum_Num: "d3_sum (map Num w) = sum_list w"
  by (induction w) simp_all

lemma fold_max_ge: "(n::nat) \<le> fold max xs n \<and> (\<forall>x\<in>set xs. x \<le> fold max xs n)"
proof (induction xs arbitrary: n)
  case Nil
  then show ?case by simp
next
  case (Cons a xs)
  have "max a n \<le> fold max xs (max a n)" "\<forall>x\<in>set xs. x \<le> fold max xs (max a n)"
    using Cons [of "max a n"] by simp_all
  then show ?case by auto
qed

lemma d3_max_length_ge: "r \<in> set g \<Longrightarrow> length r \<le> d3_max_length g"
proof (cases g)
  case Nil
  assume "r \<in> set g"
  then show ?thesis using Nil by simp
next
  case (Cons a as)
  assume "r \<in> set g"
  then show ?thesis using Cons fold_max_ge [of "length a" "map length as"] by auto
qed

lemma js_nth_js_set: "js_nth (js_set ws i v) j = (if j = i then v else js_nth ws j)"
  by (auto simp add: js_nth_def js_set_def nth_append)

lemma length_js_set: "length (js_set ws i v) = max (length ws) (Suc i)"
  by (auto simp add: js_set_def)

section \<open>Facts about weights and fixity\<close>

lemma js_all_Ball: "bs \<noteq> [] \<Longrightarrow> js_all bs = Inr (\<forall>b\<in>set bs. b)"
proof -
  have "foldl (\<and>) b bs = (b \<and> (\<forall>x\<in>set bs. x))" for b bs
    by (induction bs arbitrary: b) auto
  then show "bs \<noteq> [] \<Longrightarrow> js_all bs = Inr (\<forall>b\<in>set bs. b)"
    by (cases bs) (simp_all add: js_all_def)
qed

lemma componentWeight_ok:
  assumes "is_weight w" "i < length groups" "groups ! i \<noteq> []"
  shows "componentWeight groups fixed (w, i) = Inr (Num (resolved_weight fixed w (groups ! i)))"
  using assms js_all_Ball [of "map fixed (groups ! i)"]
  by (cases w) (simp_all add: componentWeight_def resolved_weight_def)

lemma js_map_throwing_ok:
  "(\<forall>x\<in>set xs. f x = Inr (g x)) \<Longrightarrow> js_map_throwing f xs = Inr (map g xs)"
  by (induction xs) simp_all

lemma calcComponentWeights_ok:
  assumes "\<forall>v\<in>set ws. is_weight v" "length ws = length groups" "\<forall>g\<in>set groups. g \<noteq> []"
  shows "calcComponentWeights ws groups fixed
           = Inr (map Num (map (\<lambda>(w, g). resolved_weight fixed w g) (zip ws groups)))"
proof -
  have "\<forall>p\<in>set (zip ws [0..<length ws]).
          componentWeight groups fixed p
            = Inr ((\<lambda>(w, i). Num (resolved_weight fixed w (groups ! i))) p)"
  proof
    fix p assume p: "p \<in> set (zip ws [0..<length ws])"
    obtain w i where wi: "p = (w, i)" by (cases p)
    with p have "w \<in> set ws" "i < length ws" by (auto dest: set_zip_leftD set_zip_rightD)
    then show "componentWeight groups fixed p
            = Inr ((\<lambda>(w, i). Num (resolved_weight fixed w (groups ! i))) p)"
      using assms wi componentWeight_ok [of w i groups fixed] by simp
  qed
  then have "calcComponentWeights ws groups fixed
      = Inr (map (\<lambda>(w, i). Num (resolved_weight fixed w (groups ! i))) (zip ws [0..<length ws]))"
    unfolding calcComponentWeights_def by (rule js_map_throwing_ok)
  also have "map (\<lambda>(w, i). Num (resolved_weight fixed w (groups ! i))) (zip ws [0..<length ws])
      = map Num (map (\<lambda>(w, g). resolved_weight fixed w g) (zip ws groups))"
    using assms(2) by (auto intro!: nth_equalityI)
  finally show ?thesis .
qed

lemma layout_rowWeights:
  assumes "layout_ok t"
  shows "calcComponentWeights (rowWeights t) (rows t) comp_isFixedHeight = Inr (map Num (row_weights t))"
  unfolding row_weights_def using assms
  by (intro calcComponentWeights_ok) (simp_all add: layout_ok_def)

lemma layout_colWeights:
  assumes "layout_ok t"
  shows "calcComponentWeights (colWeights t) (d3_transpose (rows t)) comp_isFixedWidth
           = Inr (map Num (col_weights t))"
  unfolding col_weights_def using assms length_transpose [OF assms] transpose_nonempty [of "rows t"]
  by (intro calcComponentWeights_ok) (simp_all add: layout_ok_def)

lemma js_map_throwing_groups:
  "js_map_throwing (groupIsFixed fixed) groups
     = (if [] \<in> set groups then Inl TypeError
        else Inr (map (\<lambda>g. \<forall>c\<in>set g. fixed c) groups))"
proof (induction groups)
  case Nil
  then show ?case by simp
next
  case (Cons g groups)
  show ?case
  proof (cases "g = []")
    case True
    then show ?thesis by (simp add: groupIsFixed_def js_all_def)
  next
    case False
    then have "groupIsFixed fixed g = Inr (\<forall>c\<in>set g. fixed c)"
      using js_all_Ball [of "map fixed g"] by (simp add: groupIsFixed_def)
    then show ?thesis using Cons False by auto
  qed
qed

lemma fixedSpace_eq:
  "fixedSpace groups fixed
     = (if groups = [] \<or> [] \<in> set groups then Inl TypeError
        else Inr (\<forall>g\<in>set groups. \<forall>c\<in>set g. fixed c))"
  using js_all_Ball [of "map (\<lambda>g. \<forall>c\<in>set g. fixed c) groups"]
  by (auto simp add: fixedSpace_def js_map_throwing_groups js_all_def)

lemma calcProportionalSpace_Num:
  "calcProportionalSpace (map Num w) freeSpace = map Num (proportional_shares w freeSpace)"
  by (simp add: calcProportionalSpace_def proportional_shares_def d3_sum_Num js_map_def Let_def)





section \<open>Facts about the minimum queries and the layout\<close>

lemma getRowMinimum_eq:
  "getRowMinimum t =
     (total_rowMinimum t, t\<lparr> rowMinimums := Some (map (\<lambda>row. d3_max (map comp_rowMinimum row)) (rows t)) \<rparr>)"
  by (simp add: getRowMinimum_def Let_def total_rowMinimum_def row_minimums_def d3_max_group)

lemma getColMinimum_eq:
  "getColMinimum t =
     (total_colMinimum t,
      t\<lparr> colMinimums := Some (map (\<lambda>col. d3_max (map comp_colMinimum col)) (d3_transpose (rows t))) \<rparr>)"
  by (simp add: getColMinimum_def Let_def total_colMinimum_def col_minimums_def d3_max_group)

lemma computeLayout_unfold:
  "computeLayout x y w h t =
     (let t3 = laid_out x y w h t in
      if w < total_colMinimum t \<or> h < total_rowMinimum t then (Inl InsufficientSpace, t3)
      else
        case calcComponentWeights (rowWeights t) (rows t) comp_isFixedHeight of
          Inl e \<Rightarrow> (Inl e, t3)
        | Inr rw \<Rightarrow>
        (case calcComponentWeights (colWeights t) (d3_transpose (rows t)) comp_isFixedWidth of
          Inl e \<Rightarrow> (Inl e, t3)
        | Inr cw \<Rightarrow>
        (case zipMinimums (calcProportionalSpace rw (h - total_rowMinimum t)) (rowMinimums t3) of
          Inl e \<Rightarrow> (Inl e, t3)
        | Inr rowHeights \<Rightarrow>
        (case zipMinimums (calcProportionalSpace cw (w - total_colMinimum t)) (colMinimums t3) of
          Inl e \<Rightarrow> (Inl e, t3)
        | Inr colWidths \<Rightarrow>
          (Inr (layoutRows (rows t) 0 (Num 0) colWidths rowHeights (rowPadding t) (colPadding t)),
           t3)))))"
  by (simp add: computeLayout_def getColMinimum_eq getRowMinimum_eq Let_def laid_out_def
        super_computeLayout_def total_rowMinimum_def total_colMinimum_def row_minimums_def
        col_minimums_def cong: sum.case_cong)

lemma layoutCells_length [simp]: "length (layoutCells row c0 x y cws rh cp) = length row"
  by (induction row arbitrary: c0 x) simp_all

lemma layoutRows_length [simp]: "length (layoutRows rs r0 y cws rhs rp cp) = length rs"
  by (induction rs arbitrary: r0 y) simp_all

lemma sum_take_drop_Suc:
  "c0 < length (xs::rat list) \<Longrightarrow>
     sum_list (take (Suc k) (drop c0 xs)) = xs ! c0 + sum_list (take k (drop (Suc c0) xs))"
  by (simp add: Cons_nth_drop_Suc [symmetric])

lemma layoutCells_nth:
  assumes "c0 + length row \<le> length cws" "i < length row"
  shows "layoutCells row c0 (Num x0) y (map Num cws) rh cp ! i
           = ComputeLayout (row ! i)
               (Num (x0 + sum_list (take i (drop c0 cws)) + of_nat i * cp)) y
               (Num (cws ! (c0 + i))) rh"
  using assms
proof (induction row arbitrary: c0 x0 i)
  case Nil
  then show ?case by simp
next
  case (Cons a row)
  have c0: "c0 < length cws" using Cons.prems by simp
  show ?case
  proof (cases i)
    case 0
    then show ?thesis using c0 by (simp add: js_nth_def)
  next
    case (Suc k)
    have "layoutCells row (Suc c0) (Num (x0 + (cws ! c0 + cp))) y (map Num cws) rh cp ! k
            = ComputeLayout (row ! k)
                (Num (x0 + (cws ! c0 + cp) + sum_list (take k (drop (Suc c0) cws)) + of_nat k * cp)) y
                (Num (cws ! (Suc c0 + k))) rh"
      using Cons.prems Suc by (intro Cons.IH) simp_all
    then show ?thesis
      using c0 Suc sum_take_drop_Suc [OF c0, of k]
      by (simp add: js_nth_def algebra_simps)
  qed
qed

lemma layoutRows_nth:
  assumes "r0 + length rs \<le> length rhs" "i < length rs"
  shows "layoutRows rs r0 (Num y0) cws (map Num rhs) rp cp ! i
           = layoutCells (rs ! i) 0 (Num 0)
               (Num (y0 + sum_list (take i (drop r0 rhs)) + of_nat i * rp)) cws
               (Num (rhs ! (r0 + i))) cp"
  using assms
proof (induction rs arbitrary: r0 y0 i)
  case Nil
  then show ?case by simp
next
  case (Cons a rs)
  have r0: "r0 < length rhs" using Cons.prems by simp
  show ?case
  proof (cases i)
    case 0
    then show ?thesis using r0 by (simp add: js_nth_def)
  next
    case (Suc k)
    have "layoutRows rs (Suc r0) (Num (y0 + (rhs ! r0 + rp))) cws (map Num rhs) rp cp ! k
            = layoutCells (rs ! k) 0 (Num 0)
                (Num (y0 + (rhs ! r0 + rp) + sum_list (take k (drop (Suc r0) rhs)) + of_nat k * rp)) cws
                (Num (rhs ! (Suc r0 + k))) cp"
      using Cons.prems Suc by (intro Cons.IH) simp_all
    then show ?thesis
      using r0 Suc sum_take_drop_Suc [OF r0, of k]
      by (simp add: js_nth_def algebra_simps)
  qed
qed

lemma layout_cell:
  assumes "length rs \<le> length rhs" "r < length rs" "length (rs ! r) \<le> length cws" "c < length (rs ! r)"
  shows "layoutRows rs 0 (Num 0) (map Num cws) (map Num rhs) rp cp ! r ! c
           = ComputeLayout (rs ! r ! c)
               (Num (sum_list (take c cws) + of_nat c * cp))
               (Num (sum_list (take r rhs) + of_nat r * rp))
               (Num (cws ! c)) (Num (rhs ! r))"
  using assms layoutRows_nth [of 0 rs rhs r 0 "map Num cws" rp cp]
    layoutCells_nth [of 0 "rs ! r" cws c 0]
  by simp

lemma zipMinimums_Num:
  "zipMinimums (map Num ps) (Some (map Num ms)) = Inr (map Num (map (\<lambda>(p, m). p + m) (zip ps ms)))"
  by (simp add: zipMinimums_def sumPair_def zip_map_map split_def)

lemma laid_out_minimums:
  assumes "layout_ok t"
  shows "rowMinimums (laid_out x y w h t) = Some (map Num (row_minimums t))"
    and "colMinimums (laid_out x y w h t) = Some (map Num (col_minimums t))"
  using assms d3_max_groups_Num [of "rows t" comp_rowMinimum]
    d3_max_groups_Num [OF transpose_nonempty, of comp_colMinimum "rows t"]
  by (simp_all add: laid_out_def row_minimums_def col_minimums_def layout_ok_def)

lemma computeLayout_ok:
  assumes "layout_ok t"
  shows "computeLayout x y w h t =
     (if w < total_colMinimum t \<or> h < total_rowMinimum t then Inl InsufficientSpace
      else Inr (layoutRows (rows t) 0 (Num 0) (map Num (col_widths t w)) (map Num (row_heights t h))
                  (rowPadding t) (colPadding t)),
      laid_out x y w h t)"
  by (simp add: computeLayout_unfold Let_def layout_rowWeights [OF assms] layout_colWeights [OF assms]
        laid_out_minimums [OF assms] calcProportionalSpace_Num zipMinimums_Num
        row_heights_def col_widths_def)

section \<open>Facts about padding and addComponent\<close>

lemma fold_padSlot: "fold padSlot [0..<n] row = padded n row"
proof (induction n)
  case 0
  then show ?case by (simp add: padded_def)
next
  case (Suc n)
  have "padSlot n (padded n row) = padded (Suc n) row"
    by (auto simp add: padSlot_def padded_def Suc_diff_le replicate_append_same)
  then show ?case using Suc by simp
qed

lemma js_nth_padColWeight:
  "js_nth (padColWeight j ws) k = (if k = j \<and> js_nth ws j = Undefined then Null else js_nth ws k)"
  by (simp add: padColWeight_def js_nth_js_set)

lemma js_nth_fold_padColWeight:
  "js_nth (fold padColWeight [0..<n] ws) k
     = (if k < n \<and> js_nth ws k = Undefined then Null else js_nth ws k)"
  by (induction n arbitrary: k) (auto simp add: js_nth_padColWeight less_Suc_eq)

lemma padRow_fields [simp]:
  "element (padRow n i t) = element t" "nRows (padRow n i t) = nRows t"
  "nCols (padRow n i t) = nCols t" "colWeights (padRow n i t) = colWeights t"
  "rowPadding (padRow n i t) = rowPadding t" "colPadding (padRow n i t) = colPadding t"
  by (simp_all add: padRow_def Let_def)

lemma padRow_rows:
  "rows (padRow n i t)
     = (if i < length (rows t) then (rows t)[i := padded n (rows t ! i)]
        else (rows t @ [[]])[i := padded n ((rows t @ [[]]) ! i)])"
  by (simp add: padRow_def Let_def fold_padSlot)

lemma padRow_rowWeights:
  "rowWeights (padRow n i t) = (if i < length (rows t) then rowWeights t else js_set (rowWeights t) i Null)"
  by (simp add: padRow_def Let_def)

lemma fold_padRow_rows:
  "length (rows (fold (padRow n) [0..<k] t)) = max k (length (rows t))
   \<and> (\<forall>i < max k (length (rows t)). rows (fold (padRow n) [0..<k] t) ! i = padded_row n k (rows t) i)"
proof (induction k)
  case 0
  then show ?case by (simp add: padded_row_def)
next
  case (Suc k)
  let ?u = "fold (padRow n) [0..<k] t"
  have len: "length (rows ?u) = max k (length (rows t))" using Suc by simp
  have nth: "\<And>i. i < max k (length (rows t)) \<Longrightarrow> rows ?u ! i = padded_row n k (rows t) i"
    using Suc by simp
  have step: "fold (padRow n) [0..<Suc k] t = padRow n k ?u" by simp
  show ?case
  proof (cases "k < length (rows t)")
    case True
    then have "rows (padRow n k ?u) = (rows ?u)[k := padded n (rows ?u ! k)]"
      using len by (simp add: padRow_rows)
    moreover have "rows ?u ! k = rows t ! k" using nth [of k] True by (simp add: padded_row_def)
    ultimately show ?thesis using True len nth unfolding step
      by (auto simp add: padded_row_def nth_list_update max_def)
  next
    case False
    then have lk: "length (rows ?u) = k" using len by simp
    then have "rows (padRow n k ?u) = rows ?u @ [padded n []]"
      by (simp add: padRow_rows list_update_append nth_append)
    then show ?thesis using False lk nth unfolding step
      by (auto simp add: padded_row_def nth_append padded_def max_def less_Suc_eq)
  qed
qed

lemma fold_padRow_fields [simp]:
  "element (fold (padRow n) [0..<k] t) = element t"
  "nRows (fold (padRow n) [0..<k] t) = nRows t"
  "nCols (fold (padRow n) [0..<k] t) = nCols t"
  "colWeights (fold (padRow n) [0..<k] t) = colWeights t"
  "rowPadding (fold (padRow n) [0..<k] t) = rowPadding t"
  "colPadding (fold (padRow n) [0..<k] t) = colPadding t"
  by (induction k) simp_all

lemma fold_padRow_rowWeights:
  "js_nth (rowWeights (fold (padRow n) [0..<k] t)) i
     = (if length (rows t) \<le> i \<and> i < k then Null else js_nth (rowWeights t) i)"
proof (induction k)
  case 0
  then show ?case by simp
next
  case (Suc k)
  have len: "length (rows (fold (padRow n) [0..<k] t)) = max k (length (rows t))"
    using fold_padRow_rows [of n k t] by simp
  show ?case using Suc len
    by (auto simp add: padRow_rowWeights js_nth_js_set max_def)
qed

lemma padded_row_length:
  "length (padded_row n k rs i)
     = (if i < length rs then (if i < k then max n (length (rs ! i)) else length (rs ! i)) else n)"
  by (auto simp add: padded_row_def padded_def max_def)

lemma padded_row_nth:
  "j < length (padded_row n k rs i) \<Longrightarrow>
     padded_row n k rs i ! j
       = (if i < length rs \<and> j < length (rs ! i) then rs ! i ! j else new_Component)"
  by (auto simp add: padded_row_def padded_def nth_append)

lemma padTableToSize_rows:
  "length (rows (padTableToSize nR nC t)) = max nR (length (rows t))"
  "i < max nR (length (rows t)) \<Longrightarrow> rows (padTableToSize nR nC t) ! i = padded_row nC nR (rows t) i"
  using fold_padRow_rows [of nC nR t] by (simp_all add: padTableToSize_def Let_def)

lemma padTableToSize_fields [simp]:
  "element (padTableToSize nR nC t) = element t"
  "nRows (padTableToSize nR nC t) = nRows t"
  "nCols (padTableToSize nR nC t) = nCols t"
  "rowPadding (padTableToSize nR nC t) = rowPadding t"
  "colPadding (padTableToSize nR nC t) = colPadding t"
  by (simp_all add: padTableToSize_def Let_def)

lemma padTableToSize_rowWeights:
  "js_nth (rowWeights (padTableToSize nR nC t)) i
     = (if length (rows t) \<le> i \<and> i < nR then Null else js_nth (rowWeights t) i)"
  by (simp add: padTableToSize_def Let_def fold_padRow_rowWeights)

lemma padTableToSize_colWeights:
  "js_nth (colWeights (padTableToSize nR nC t)) k
     = (if k < nC \<and> js_nth (colWeights t) k = Undefined then Null else js_nth (colWeights t) k)"
  by (simp add: padTableToSize_def Let_def js_nth_fold_padColWeight)

lemma grown_length: "length (rows (grown row col t)) = max (max row (nRows t) + 1) (length (rows t))"
  by (simp add: grown_def padTableToSize_rows)

lemma grown_row:
  "i < max (max row (nRows t) + 1) (length (rows t)) \<Longrightarrow>
     rows (grown row col t) ! i
       = padded_row (max col (nCols t) + 1) (max row (nRows t) + 1) (rows t) i"
  by (simp add: grown_def padTableToSize_rows)

lemma grown_target:
  "row < length (rows (grown row col t))" "col < length (rows (grown row col t) ! row)"
  "rows (grown row col t) ! row ! col
     = (if row < length (rows t) \<and> col < length (rows t ! row) then rows t ! row ! col
        else new_Component)"
proof -
  show r: "row < length (rows (grown row col t))" by (simp add: grown_length)
  have "rows (grown row col t) ! row
          = padded_row (max col (nCols t) + 1) (max row (nRows t) + 1) (rows t) row"
    by (rule grown_row) simp
  then have eq: "rows (grown row col t) ! row
          = padded_row (max col (nCols t) + 1) (max row (nRows t) + 1) (rows t) row" .
  show c: "col < length (rows (grown row col t) ! row)"
    unfolding eq padded_row_length by (auto simp add: less_max_iff_disj)
  show "rows (grown row col t) ! row ! col
     = (if row < length (rows t) \<and> col < length (rows t ! row) then rows t ! row ! col
        else new_Component)"
    using c unfolding eq by (rule padded_row_nth)
qed

lemma grown_fold:
  "padTableToSize (Suc (max row (nRows t))) (Suc (max col (nCols t)))
     (t\<lparr> nRows := max row (nRows t), nCols := max col (nCols t) \<rparr>) = grown row col t"
  by (simp add: grown_def)

lemma addComponent_unfold:
  "addComponent row col c t =
     (if element t \<noteq> None then (Inl InvalidMutation, t)
      else if \<not> isBaseComponent (rows (grown row col t) ! row ! col)
        then (Inl CellOccupied, grown row col t)
      else (Inr (), (grown row col t)
              \<lparr> rows := (rows (grown row col t))[row := (rows (grown row col t) ! row)[col := c]] \<rparr>))"
proof (cases "element t = None")
  case False
  then show ?thesis by (simp add: addComponent_def)
next
  case True
  have "addComponent row col c t =
     (if row < length (rows (grown row col t)) \<and> col < length (rows (grown row col t) ! row) then
        (if \<not> isBaseComponent (rows (grown row col t) ! row ! col) then (Inl CellOccupied, grown row col t)
         else (Inr (), (grown row col t)
              \<lparr> rows := (rows (grown row col t))[row := (rows (grown row col t) ! row)[col := c]] \<rparr>))
      else (Inl TypeError, grown row col t))"
    using True by (simp add: addComponent_def Let_def grown_fold)
  then show ?thesis
    using True grown_target(1,2) [where row = row and col = col and t = t] by simp
qed

lemma grown_fields [simp]:
  "element (grown row col t) = element t"
  "nRows (grown row col t) = max row (nRows t)"
  "nCols (grown row col t) = max col (nCols t)"
  "rowPadding (grown row col t) = rowPadding t"
  "colPadding (grown row col t) = colPadding t"
  by (simp_all add: grown_def)

lemma grown_cover:
  assumes "counters_cover t"
  shows "length (rows (grown row col t)) = max row (nRows t) + 1"
    and "i < max row (nRows t) + 1 \<Longrightarrow> length (rows (grown row col t) ! i) = max col (nCols t) + 1"
proof -
  have lr: "length (rows t) \<le> max row (nRows t) + 1"
    using assms by (auto simp add: counters_cover_def max_def)
  then show "length (rows (grown row col t)) = max row (nRows t) + 1"
    by (simp add: grown_length)
  have lc: "length (rows t ! i) \<le> max col (nCols t) + 1" if "i < length (rows t)"
  proof -
    from that have "rows t ! i \<in> set (rows t)" by simp
    then have "length (rows t ! i) \<le> nCols t + 1" using assms by (simp add: counters_cover_def)
    then show ?thesis by (simp add: max_def)
  qed
  assume i: "i < max row (nRows t) + 1"
  then have row_i: "rows (grown row col t) ! i
          = padded_row (max col (nCols t) + 1) (max row (nRows t) + 1) (rows t) i"
    by (intro grown_row) simp
  show "length (rows (grown row col t) ! i) = max col (nCols t) + 1"
    unfolding row_i padded_row_length using i lc by (auto simp add: max_def)
qed

lemma grown_slot:
  assumes "i < length (rows (grown row col t))" "j < length (rows (grown row col t) ! i)"
  shows "rows (grown row col t) ! i ! j
           = (if i < length (rows t) \<and> j < length (rows t ! i) then rows t ! i ! j
              else new_Component)"
proof -
  have row_i: "rows (grown row col t) ! i
          = padded_row (max col (nCols t) + 1) (max row (nRows t) + 1) (rows t) i"
    using assms(1) by (intro grown_row) (simp add: grown_length)
  show ?thesis using assms(2) unfolding row_i by (rule padded_row_nth)
qed

lemma grown_rowWeights:
  "js_nth (rowWeights (grown row col t)) i
     = (if length (rows t) \<le> i \<and> i < max row (nRows t) + 1 then Null else js_nth (rowWeights t) i)"
  by (simp add: grown_def padTableToSize_rowWeights)

lemma grown_colWeights:
  "js_nth (colWeights (grown row col t)) k
     = (if k < max col (nCols t) + 1 \<and> js_nth (colWeights t) k = Undefined then Null
        else js_nth (colWeights t) k)"
  by (simp add: grown_def padTableToSize_colWeights)

lemma snd_addComponent:
  assumes "element t = None"
  shows "snd (addComponent row col c t)
           = (if isBaseComponent (rows (grown row col t) ! row ! col)
              then (grown row col t)\<lparr> rows := (rows (grown row col t))[row := (rows (grown row col t) ! row)[col := c]] \<rparr>
              else grown row col t)"
  using assms by (simp add: addComponent_unfold)

lemma addComponent_weights:
  assumes "element t = None"
  shows "rowWeights (snd (addComponent row col c t)) = rowWeights (grown row col t)"
    and "colWeights (snd (addComponent row col c t)) = colWeights (grown row col t)"
    and "nRows (snd (addComponent row col c t)) = max row (nRows t)"
    and "nCols (snd (addComponent row col c t)) = max col (nCols t)"
    and "element (snd (addComponent row col c t)) = None"
  using assms by (simp_all add: snd_addComponent)

lemma addComponent_shape:
  assumes "element t = None"
  shows "length (rows (snd (addComponent row col c t))) = length (rows (grown row col t))"
    and "length (rows (snd (addComponent row col c t)) ! i) = length (rows (grown row col t) ! i)"
  using assms grown_target(1) [where row = row and col = col and t = t]
  by (simp_all add: snd_addComponent nth_list_update)

lemma addComponent_other_slots:
  assumes "element t = None" "(i, j) \<noteq> (row, col)"
  shows "rows (snd (addComponent row col c t)) ! i ! j = rows (grown row col t) ! i ! j"
  using assms grown_target(1) [where row = row and col = col and t = t]
  by (auto simp add: snd_addComponent nth_list_update)

lemma Table_fields [simp]:
  "element (Table rows0) = None"
  "rows (Table rows0) = map (map cleanOutNulls) rows0"
  "nRows (Table rows0) = length rows0"
  "nCols (Table rows0) = d3_max_length rows0"
  "rowWeights (Table rows0) = map (\<lambda>r. Null) rows0"
proof -
  have "d3_max_length (map (map cleanOutNulls) rows0) = d3_max_length rows0"
    by (cases rows0) (simp_all add: comp_def)
  then show "nCols (Table rows0) = d3_max_length rows0"
    by (cases rows0) (simp_all add: Table_def Let_def)
qed (simp_all add: Table_def Let_def)

lemma counters_cover_Table: "counters_cover (Table rows0)"
  using d3_max_length_ge [of _ rows0] by (auto simp add: counters_cover_def le_SucI)

lemma counters_cover_addComponent:
  assumes "element t = None" "counters_cover t"
  shows "counters_cover (snd (addComponent row col c t))"
proof -
  let ?t' = "snd (addComponent row col c t)"
  have len: "length (rows ?t') = max row (nRows t) + 1"
    using assms by (simp add: addComponent_shape grown_cover)
  have "length r = max col (nCols t) + 1" if "r \<in> set (rows ?t')" for r
  proof -
    from that obtain i where i: "i < length (rows ?t')" "r = rows ?t' ! i"
      by (auto simp add: in_set_conv_nth)
    then show ?thesis using assms len by (simp add: addComponent_shape grown_cover)
  qed
  then show ?thesis using len assms by (simp add: counters_cover_def addComponent_weights)
qed


section \<open>Facts about shares and the layout as a whole\<close>

lemma sum_list_scaled: "sum_list (map (\<lambda>x. c * x / s) w) = c * sum_list w / (s::rat)"
  by (induction w) (simp_all add: distrib_left add_divide_distrib)

lemma sum_list_even: "w \<noteq> [] \<Longrightarrow> sum_list (map (\<lambda>x. c / of_nat (length w)) w) = (c::rat)"
  by (simp add: sum_list_triv)


lemma proportional_shares_length [simp]: "length (proportional_shares ws f) = length ws"
  by (simp add: proportional_shares_def)

lemma layout_ok_lengths:
  assumes "layout_ok t"
  shows "length (row_weights t) = length (rows t)" "length (row_minimums t) = length (rows t)"
    "length (col_weights t) = length (colWeights t)" "length (col_minimums t) = length (colWeights t)"
    "length (row_heights t h) = length (rows t)" "length (col_widths t w) = length (colWeights t)"
  using assms length_transpose [OF assms]
  by (simp_all add: row_weights_def row_minimums_def col_weights_def col_minimums_def
      row_heights_def col_widths_def layout_ok_def)


lemma snd_computeLayout: "snd (computeLayout x y w h t) = laid_out x y w h t"
  by (simp add: computeLayout_unfold Let_def split: sum.splits)





lemma proportional_shares_sum:
  assumes "ws \<noteq> []"
  shows "sum_list (proportional_shares ws f) = f"
proof (cases "sum_list ws = 0")
  case True
  then show ?thesis using assms by (simp add: proportional_shares_def sum_list_even)
next
  case False
  then show ?thesis by (simp add: proportional_shares_def sum_list_scaled)
qed

lemma sum_list_zip_plus:
  "length ps = length ms \<Longrightarrow> sum_list (map (\<lambda>(p, m). p + m) (zip ps ms)) = sum_list ps + sum_list (ms::rat list)"
  by (induction ps ms rule: list_induct2) simp_all

lemma grid_filled:
  assumes "layout_ok t" "rows t \<noteq> []"
  shows "sum_list (col_widths t w) + colPadding t * (of_nat (length (colWeights t)) - 1) = w"
    and "sum_list (row_heights t h) + rowPadding t * (of_nat (length (rows t)) - 1) = h"
proof -
  have cols: "colWeights t \<noteq> []"
    using assms by (cases "rows t") (auto simp add: layout_ok_def)
  have "col_weights t \<noteq> []" "row_weights t \<noteq> []"
    using layout_ok_lengths(1,3) [OF assms(1)] cols assms(2) by auto
  then have "sum_list (proportional_shares (col_weights t) (w - total_colMinimum t)) = w - total_colMinimum t"
    "sum_list (proportional_shares (row_weights t) (h - total_rowMinimum t)) = h - total_rowMinimum t"
    by (simp_all add: proportional_shares_sum)
  then show "sum_list (col_widths t w) + colPadding t * (of_nat (length (colWeights t)) - 1) = w"
    "sum_list (row_heights t h) + rowPadding t * (of_nat (length (rows t)) - 1) = h"
    using layout_ok_lengths [OF assms(1)] length_transpose [OF assms(1)]
    by (simp_all add: col_widths_def row_heights_def sum_list_zip_plus total_colMinimum_def
        total_rowMinimum_def)
qed

lemma layout_ok_example_plain: "layout_ok example_table"
  by (simp add: layout_ok_def example_table_def Table_def d3_transpose_def cleanOutNulls_def)

lemma layout_ok_padded_example: "layout_ok (padding 3 5 example_table)"
  using layout_ok_example_plain by (simp add: layout_ok_def padding_def)

lemma layoutCells_running:
  "i < length row \<Longrightarrow>
     layoutCells row c0 (running_offset cws cp c0) y cws rh cp ! i
       = ComputeLayout (row ! i) (running_offset cws cp (c0 + i)) y (js_nth cws (c0 + i)) rh"
proof (induction row arbitrary: c0 i)
  case Nil
  then show ?case by simp
next
  case (Cons a row)
  show ?case
  proof (cases i)
    case 0
    then show ?thesis by simp
  next
    case (Suc k)
    then have "layoutCells row (Suc c0) (running_offset cws cp (Suc c0)) y cws rh cp ! k
        = ComputeLayout (row ! k) (running_offset cws cp (Suc c0 + k)) y (js_nth cws (Suc c0 + k)) rh"
      using Cons.prems by (intro Cons.IH) simp
    then show ?thesis using Suc by simp
  qed
qed

lemma layoutRows_running:
  "i < length rs \<Longrightarrow>
     layoutRows rs r0 (running_offset rhs rp r0) cws rhs rp cp ! i
       = layoutCells (rs ! i) 0 (Num 0) (running_offset rhs rp (r0 + i)) cws (js_nth rhs (r0 + i)) cp"
proof (induction rs arbitrary: r0 i)
  case Nil
  then show ?case by simp
next
  case (Cons a rs)
  show ?case
  proof (cases i)
    case 0
    then show ?thesis by simp
  next
    case (Suc k)
    then have "layoutRows rs (Suc r0) (running_offset rhs rp (Suc r0)) cws rhs rp cp ! k
        = layoutCells (rs ! k) 0 (Num 0) (running_offset rhs rp (Suc r0 + k)) cws
            (js_nth rhs (Suc r0 + k)) cp"
      using Cons.prems by (intro Cons.IH) simp
    then show ?thesis using Suc by simp
  qed
qed

lemma layout_cell_running:
  assumes "r < length rs" "c < length (rs ! r)"
  shows "layoutRows rs 0 (Num 0) cws rhs rp cp ! r ! c
           = ComputeLayout (rs ! r ! c) (running_offset cws cp c) (running_offset rhs rp r)
               (js_nth cws c) (js_nth rhs r)"
  using layoutRows_running [OF assms(1), of 0 rhs rp cws cp]
    layoutCells_running [OF assms(2), of 0 cws cp]
  by simp

lemma computeLayout_returns:
  assumes "fst (computeLayout x y w h t) = Inr calls"
  shows "\<exists>rw cw.
      calcComponentWeights (rowWeights t) (rows t) comp_isFixedHeight = Inr rw
    \<and> calcComponentWeights (colWeights t) (d3_transpose (rows t)) comp_isFixedWidth = Inr cw
    \<and> calls = layoutRows (rows t) 0 (Num 0)
        (final_sizes cw (w - total_colMinimum t)
           (map (\<lambda>col. d3_max (map comp_colMinimum col)) (d3_transpose (rows t))))
        (final_sizes rw (h - total_rowMinimum t)
           (map (\<lambda>row. d3_max (map comp_rowMinimum row)) (rows t)))
        (rowPadding t) (colPadding t)"
  using assms
  by (auto simp add: computeLayout_unfold Let_def laid_out_def zipMinimums_def final_sizes_def
      split: sum.splits if_splits)

lemma layout_on_data_model:
  assumes "layout_ok t" "total_colMinimum t \<le> w" "total_rowMinimum t \<le> h"
  shows "\<exists>calls. fst (computeLayout x y w h t) = Inr calls
    \<and> length calls = length (rows t)
    \<and> (\<forall>r<length (rows t). \<forall>c<length (colWeights t).
          length (calls ! r) = length (colWeights t)
          \<and> calls ! r ! c =
              ComputeLayout (rows t ! r ! c)
                (Num (sum_list (take c (col_widths t w)) + of_nat c * colPadding t))
                (Num (sum_list (take r (row_heights t h)) + of_nat r * rowPadding t))
                (Num (col_widths t w ! c)) (Num (row_heights t h ! r))
          \<and> col_widths t w ! c
              = proportional_shares (col_weights t) (w - total_colMinimum t) ! c + col_minimums t ! c
          \<and> row_heights t h ! r
              = proportional_shares (row_weights t) (h - total_rowMinimum t) ! r + row_minimums t ! r)
    \<and> (rows t \<noteq> [] \<longrightarrow>
          sum_list (col_widths t w) + colPadding t * (of_nat (length (colWeights t)) - 1) = w
          \<and> sum_list (row_heights t h) + rowPadding t * (of_nat (length (rows t)) - 1) = h)"
proof -
  let ?calls = "layoutRows (rows t) 0 (Num 0) (map Num (col_widths t w)) (map Num (row_heights t h))
                  (rowPadding t) (colPadding t)"
  have res: "fst (computeLayout x y w h t) = Inr ?calls"
    using assms by (simp add: computeLayout_ok)
  have cell: "length (?calls ! r) = length (colWeights t)
          \<and> ?calls ! r ! c =
              ComputeLayout (rows t ! r ! c)
                (Num (sum_list (take c (col_widths t w)) + of_nat c * colPadding t))
                (Num (sum_list (take r (row_heights t h)) + of_nat r * rowPadding t))
                (Num (col_widths t w ! c)) (Num (row_heights t h ! r))
          \<and> col_widths t w ! c
              = proportional_shares (col_weights t) (w - total_colMinimum t) ! c + col_minimums t ! c
          \<and> row_heights t h ! r
              = proportional_shares (row_weights t) (h - total_rowMinimum t) ! r + row_minimums t ! r"
    if r: "r < length (rows t)" and c: "c < length (colWeights t)" for r c
  proof -
    have len_r: "length (rows t ! r) = length (colWeights t)"
      using assms(1) r by (simp add: layout_ok_def)
    have "?calls ! r = layoutCells (rows t ! r) 0 (Num 0)
            (Num (0 + sum_list (take r (drop 0 (row_heights t h))) + of_nat r * rowPadding t))
            (map Num (col_widths t w)) (Num (row_heights t h ! (0 + r))) (colPadding t)"
      using r layout_ok_lengths(5) [OF assms(1)] by (intro layoutRows_nth) simp_all
    then have l: "length (?calls ! r) = length (colWeights t)" using len_r by simp
    have "?calls ! r ! c =
              ComputeLayout (rows t ! r ! c)
                (Num (sum_list (take c (col_widths t w)) + of_nat c * colPadding t))
                (Num (sum_list (take r (row_heights t h)) + of_nat r * rowPadding t))
                (Num (col_widths t w ! c)) (Num (row_heights t h ! r))"
      using r c len_r layout_ok_lengths(5,6) [OF assms(1)] by (intro layout_cell) simp_all
    moreover have "col_widths t w ! c
              = proportional_shares (col_weights t) (w - total_colMinimum t) ! c + col_minimums t ! c"
      using c layout_ok_lengths(3,4) [OF assms(1)] by (simp add: col_widths_def)
    moreover have "row_heights t h ! r
              = proportional_shares (row_weights t) (h - total_rowMinimum t) ! r + row_minimums t ! r"
      using r layout_ok_lengths(1,2) [OF assms(1)] by (simp add: row_heights_def)
    ultimately show ?thesis using l by simp
  qed
  show ?thesis
    using res cell grid_filled [OF assms(1)] by (intro exI [of _ ?calls]) simp
qed

section \<open>Facts about the checks of addComponent\<close>

lemma isBase_new [simp]: "isBaseComponent new_Component"
  by (simp add: new_Component_def)

lemma addComponent_anchored: "element t \<noteq> None \<Longrightarrow> addComponent row col c t = (Inl InvalidMutation, t)"
  by (simp add: addComponent_unfold)

lemma addComponent_occupied:
  assumes "element t = None" "row < length (rows t)" "col < length (rows t ! row)"
    "\<not> isBaseComponent (rows t ! row ! col)"
  shows "addComponent row col c t = (Inl CellOccupied, grown row col t)"
  using assms by (simp add: addComponent_unfold grown_target(3))

lemma addComponent_free:
  assumes "element t = None"
    "\<not> (row < length (rows t) \<and> col < length (rows t ! row) \<and> \<not> isBaseComponent (rows t ! row ! col))"
  shows "fst (addComponent row col c t) = Inr ()"
    and "rows (snd (addComponent row col c t)) ! row ! col = c"
    and "row < length (rows (snd (addComponent row col c t)))"
    and "col < length (rows (snd (addComponent row col c t)) ! row)"
    and "element (snd (addComponent row col c t)) = None"
proof -
  have b: "isBaseComponent (rows (grown row col t) ! row ! col)"
    using assms(2) by (auto simp add: grown_target(3))
  show "fst (addComponent row col c t) = Inr ()"
    using assms(1) b by (simp add: addComponent_unfold)
  show "rows (snd (addComponent row col c t)) ! row ! col = c"
    using assms(1) b grown_target(1,2) [where row = row and col = col and t = t]
    by (simp add: addComponent_unfold)
  show "row < length (rows (snd (addComponent row col c t)))"
    using assms(1) grown_target(1) [where row = row and col = col and t = t]
    by (simp add: addComponent_shape)
  show "col < length (rows (snd (addComponent row col c t)) ! row)"
    using assms(1) grown_target(2) [where row = row and col = col and t = t]
    by (simp add: addComponent_shape)
  show "element (snd (addComponent row col c t)) = None"
    using assms(1) by (simp add: addComponent_weights)
qed

section \<open>The invariants on the tables the interface builds\<close>

text \<open>
  A constructed table has counters that cover its grid and weight arrays as described;
  \<open>addComponent\<close> keeps both, and leaves a grid of the data model. No other operation
  touches the grid or the counters.
\<close>

lemma fold_min_le: "fold min xs (n::nat) \<le> n"
proof (induction xs arbitrary: n)
  case Nil
  then show ?case by simp
next
  case (Cons a xs)
  have "fold min xs (min a n) \<le> min a n" by (rule Cons)
  then show ?case by simp
qed

lemma zipLength_le_max_length: "d3_zipLength g \<le> d3_max_length g"
proof (cases g)
  case Nil
  then show ?thesis by simp
next
  case (Cons r rs)
  have "fold min (map length rs) (length r) \<le> length r" by (rule fold_min_le)
  also have "length r \<le> fold max (map length rs) (length r)" using fold_max_ge by blast
  finally show ?thesis using Cons by simp
qed

lemma zipLength_map [simp]: "d3_zipLength (map (map f) g) = d3_zipLength g"
  by (cases g) (simp_all add: comp_def)

lemma weights_cover_Table: "weights_cover (Table rows0)"
  using zipLength_le_max_length [of rows0]
  by (simp add: weights_cover_def) (simp add: Table_def Let_def d3_transpose_def)

lemma length_fold_padColWeight: "length (fold padColWeight [0..<n] ws) = max n (length ws)"
proof (induction n)
  case 0
  then show ?case by simp
next
  case (Suc n)
  let ?ws = "fold padColWeight [0..<n] ws"
  have step: "fold padColWeight [0..<Suc n] ws = padColWeight n ?ws" by simp
  show ?case
  proof (cases "js_nth ?ws n = Undefined")
    case True
    then have "padColWeight n ?ws = js_set ?ws n Null" by (simp add: padColWeight_def)
    then show ?thesis unfolding step using Suc by (simp add: length_js_set max_def)
  next
    case False
    then have "n < length ?ws" by (auto simp add: js_nth_def split: if_splits)
    moreover have "padColWeight n ?ws = ?ws" using False by (simp add: padColWeight_def)
    ultimately show ?thesis unfolding step using Suc by (simp add: max_def split: if_splits)
  qed
qed

lemma length_fold_padRow_rowWeights:
  assumes "length (rowWeights t) = length (rows t)"
  shows "length (rowWeights (fold (padRow n) [0..<k] t)) = max k (length (rows t))"
proof (induction k)
  case 0
  then show ?case using assms by simp
next
  case (Suc k)
  have len: "length (rows (fold (padRow n) [0..<k] t)) = max k (length (rows t))"
    using fold_padRow_rows [of n k t] by simp
  show ?case using Suc len by (auto simp add: padRow_rowWeights length_js_set max_def)
qed

lemma js_nth_in_range: "i < length ws \<Longrightarrow> js_nth ws i = ws ! i"
  by (simp add: js_nth_def)

lemma layout_ok_addComponent:
  assumes "element t = None" "counters_cover t" "weights_cover t"
  shows "layout_ok (snd (addComponent row col c t))"
    and "weights_cover (snd (addComponent row col c t))"
proof -
  let ?t' = "snd (addComponent row col c t)"
  let ?g = "grown row col t"
  let ?R = "max row (nRows t) + 1" and ?C = "max col (nCols t) + 1"
  have lenR: "length (rows ?t') = ?R"
    using assms by (simp add: addComponent_shape grown_cover)
  have width: "length (rows ?t' ! i) = ?C" if "i < length (rows ?t')" for i
    using that assms lenR by (simp add: addComponent_shape grown_cover)
  have rect: "\<forall>r\<in>set (rows ?t'). r \<noteq> [] \<and> length r = ?C"
  proof
    fix r assume "r \<in> set (rows ?t')"
    then obtain i where "i < length (rows ?t')" "r = rows ?t' ! i"
      by (auto simp add: in_set_conv_nth)
    then have "length r = ?C" using width by simp
    then show "r \<noteq> [] \<and> length r = ?C" by auto
  qed
  have old: "length (rows t) \<le> ?R" "length (colWeights t) \<le> ?C"
    using assms(2,3) by (auto simp add: counters_cover_def weights_cover_def max_def)
  have rw_len: "length (rowWeights ?t') = ?R"
    using assms(1,3) old length_fold_padRow_rowWeights [of _ "max col (nCols t) + 1" "max row (nRows t) + 1"]
    by (simp add: addComponent_weights grown_def padTableToSize_def Let_def weights_cover_def)
  have cw_len: "length (colWeights ?t') = ?C"
    using assms(1) old length_fold_padColWeight [of "max col (nCols t) + 1" "colWeights t"]
    by (simp add: addComponent_weights grown_def padTableToSize_def Let_def)
  have rw: "is_weight v" if "v \<in> set (rowWeights ?t')" for v
  proof -
    from that obtain i where i: "i < ?R" "v = rowWeights ?t' ! i"
      using rw_len by (auto simp add: in_set_conv_nth)
    then have "v = js_nth (rowWeights ?g) i"
      using rw_len assms(1) by (simp add: js_nth_in_range addComponent_weights)
    then have v: "v = (if length (rows t) \<le> i \<and> i < ?R then Null else js_nth (rowWeights t) i)"
      by (simp add: grown_rowWeights)
    show ?thesis
    proof (cases "i < length (rows t)")
      case True
      then have "v = rowWeights t ! i" "rowWeights t ! i \<in> set (rowWeights t)"
        using v assms(3) by (simp_all add: js_nth_def weights_cover_def)
      then show ?thesis using assms(3) by (simp add: weights_cover_def)
    next
      case False
      then show ?thesis using v i(1) by simp
    qed
  qed
  have cw: "is_weight v" if "v \<in> set (colWeights ?t')" for v
  proof -
    from that obtain j where j: "j < ?C" "v = colWeights ?t' ! j"
      using cw_len by (auto simp add: in_set_conv_nth)
    then have "v = js_nth (colWeights ?g) j"
      using cw_len assms(1) by (simp add: js_nth_in_range addComponent_weights)
    then have v: "v = (if js_nth (colWeights t) j = Undefined then Null else js_nth (colWeights t) j)"
      using j(1) by (simp add: grown_colWeights)
    show ?thesis
    proof (cases "js_nth (colWeights t) j = Undefined")
      case True
      then show ?thesis using v by simp
    next
      case False
      then have "j < length (colWeights t)" "v = colWeights t ! j"
        using v by (auto simp add: js_nth_def split: if_splits)
      then have "is_weight v \<or> v = Undefined"
        using assms(3) nth_mem [of j "colWeights t"] by (simp add: weights_cover_def)
      then show ?thesis using False v by auto
    qed
  qed
  have ne: "rows ?t' \<noteq> []" using lenR by auto
  show "layout_ok ?t'"
    using rect rw cw rw_len cw_len lenR ne by (simp add: layout_ok_def)
  show "weights_cover ?t'"
    using rw cw rw_len cw_len lenR assms(1)
    by (auto simp add: weights_cover_def addComponent_weights)
qed

lemma counters_cover_cong:
  "rows t' = rows t \<Longrightarrow> nRows t' = nRows t \<Longrightarrow> nCols t' = nCols t \<Longrightarrow>
     counters_cover t' = counters_cover t"
  by (simp add: counters_cover_def)

lemma counters_cover_others:
  "counters_cover (rowWeight i w t) = counters_cover t"
  "counters_cover (colWeight i w t) = counters_cover t"
  "counters_cover (padding rp cp t) = counters_cover t"
  "counters_cover (anchor e t) = counters_cover t"
  "counters_cover (snd (computeLayout x y aw ah t)) = counters_cover t"
  "counters_cover (snd (rowMinimum v t)) = counters_cover t"
  "counters_cover (snd (colMinimum v t)) = counters_cover t"
  by (simp_all add: counters_cover_def rowWeight_def colWeight_def padding_def anchor_def
      snd_computeLayout laid_out_def rowMinimum_def colMinimum_def getRowMinimum_eq getColMinimum_eq)

section \<open>The claims\<close>






text \<open>
  C3. \<open>rowMinimum()\<close> with no argument writes the cache anew from the children, whatever it
  held, and returns the sum over the rows of the largest \<open>rowMinimum()\<close> of the row's
  components plus \<open>rowPadding\<close> times the number of rows less one; a placeholder's own
  minimum is 0. \<open>colMinimum()\<close> does the same over the transposed grid with \<open>colPadding\<close>.
  With a value either call throws and leaves the table as it is.
\<close>

theorem minimum_derived:
  "rowMinimum None t =
     (Inr (sum_list (map (group_minimum comp_rowMinimum) (rows t))
             + rowPadding t * (of_nat (length (rows t)) - 1)),
      t\<lparr> rowMinimums := Some (map (\<lambda>row. d3_max (map comp_rowMinimum row)) (rows t)) \<rparr>)
   \<and> colMinimum None t =
     (Inr (sum_list (map (group_minimum comp_colMinimum) (d3_transpose (rows t)))
             + colPadding t * (of_nat (length (d3_transpose (rows t))) - 1)),
      t\<lparr> colMinimums := Some (map (\<lambda>col. d3_max (map comp_colMinimum col)) (d3_transpose (rows t))) \<rparr>)
   \<and> (\<forall>g. g \<noteq> [] \<longrightarrow>
         d3_max (map comp_rowMinimum g) = Num (Max (comp_rowMinimum ` set g))
         \<and> group_minimum comp_rowMinimum g = Max (comp_rowMinimum ` set g)
         \<and> d3_max (map comp_colMinimum g) = Num (Max (comp_colMinimum ` set g))
         \<and> group_minimum comp_colMinimum g = Max (comp_colMinimum ` set g))
   \<and> fst (rowMinimum None (t\<lparr> rowMinimums := stale \<rparr>)) = fst (rowMinimum None t)
   \<and> fst (colMinimum None (t\<lparr> colMinimums := stale \<rparr>)) = fst (colMinimum None t)
   \<and> comp_rowMinimum new_Component = 0 \<and> comp_colMinimum new_Component = 0
   \<and> rowMinimum (Some v) t = (Inl NotSettable, t)
   \<and> colMinimum (Some v) t = (Inl NotSettable, t)"
  by (simp add: rowMinimum_def colMinimum_def getRowMinimum_eq getColMinimum_eq
      total_rowMinimum_def total_colMinimum_def row_minimums_def col_minimums_def
      new_Component_def d3_max_Max group_minimum_def)

text \<open>The example table with paddings 3 and 5: rows 10 + 30 + 3, columns 10 + 20 + 5.\<close>

theorem minimum_derived_witness:
  "rowMinimum None (padding 3 5 example_table)
     = (Inr 43, (padding 3 5 example_table)\<lparr> rowMinimums := Some [Num 10, Num 30] \<rparr>)
   \<and> colMinimum None (padding 3 5 example_table)
     = (Inr 35, (padding 3 5 example_table)\<lparr> colMinimums := Some [Num 10, Num 20] \<rparr>)
   \<and> rowMinimum (Some 7) example_table = (Inl NotSettable, example_table)"
  using minimum_derived [of "padding 3 5 example_table"]
    minimum_derived [where t = example_table and v = 7]
  by (simp add: group_minimum_def example_table_def Table_def padding_def d3_transpose_def
      cleanOutNulls_def leafA_def leafB_def leafC_def leafD_def)

text \<open>
  C9. \<open>isFixedHeight()\<close> and \<open>isFixedWidth()\<close> throw on a table with no rows, and
  \<open>isFixedWidth()\<close> on a table whose transposed grid has no columns: the reduction runs on
  an empty array with no initial value. Each returns a boolean exactly when every group it
  reduces, and the array of groups, is not empty.
\<close>

theorem fixedSpace_empty_throws:
  "(rows t = [] \<longrightarrow> isFixedHeight t = Inl TypeError \<and> isFixedWidth t = Inl TypeError)
   \<and> (d3_transpose (rows t) = [] \<longrightarrow> isFixedWidth t = Inl TypeError)
   \<and> ((\<exists>b. isFixedHeight t = Inr b) \<longleftrightarrow> rows t \<noteq> [] \<and> [] \<notin> set (rows t))
   \<and> ((\<exists>b. isFixedWidth t = Inr b) \<longleftrightarrow> d3_transpose (rows t) \<noteq> [])
   \<and> ((\<exists>b. fixedSpace groups fixed = Inr b) \<longleftrightarrow> groups \<noteq> [] \<and> [] \<notin> set groups)
   \<and> (groups = [] \<or> [] \<in> set groups \<longrightarrow> fixedSpace groups fixed = Inl TypeError)"
  using transpose_nonempty [of "rows t"]
  by (auto simp add: isFixedHeight_def isFixedWidth_def fixedSpace_eq d3_transpose_def)

text \<open>The empty table, a table with an empty row, and two tables that do answer.\<close>

theorem fixedSpace_empty_throws_witness:
  "isFixedHeight (Table []) = Inl TypeError \<and> isFixedWidth (Table []) = Inl TypeError
   \<and> isFixedWidth (Table [[], [Some leafA]]) = Inl TypeError
   \<and> isFixedHeight (Table [[], [Some leafA]]) = Inl TypeError
   \<and> isFixedHeight example_table = Inr False
   \<and> isFixedWidth (Table [[Some leafC], [None]]) = Inr True"
  using fixedSpace_empty_throws [of "Table []"]
    fixedSpace_empty_throws [of "Table [[], [Some leafA]]" "[[]]"]
  by (simp add: isFixedHeight_def isFixedWidth_def fixedSpace_eq d3_transpose_def example_table_def
      cleanOutNulls_def new_Component_def leafA_def leafB_def leafC_def leafD_def)




text \<open>
  C5. Whenever \<open>computeLayout\<close> returns, the child in cell \<open>(r, c)\<close> has had its layout called
  with the running horizontal offset before column \<open>c\<close>, the running vertical offset before
  row \<open>r\<close>, and size \<open>colWidths[c]\<close> by \<open>rowHeights[r]\<close>, where both offsets start at 0 and
  grow by a size and one padding per cell passed, and a final height is the share of the
  free height plus the row's minimum, a final width the share of the free width plus the
  column's minimum. On a grid of the data model with enough space the call does return, and
  in numbers: the horizontal offset is the sum of the widths of the columns before \<open>c\<close> plus
  \<open>c\<close> times \<open>colPadding\<close>, the vertical offset the sum of the heights of the rows before \<open>r\<close>
  plus \<open>r\<close> times \<open>rowPadding\<close>. Padding lies between cells only: the sizes and one padding
  less than there are columns (rows) add up to the available width (height).
\<close>

theorem computeLayout_cells:
  "(fst (computeLayout x y w h t) = Inr calls \<longrightarrow>
      (\<exists>rw cw.
          calcComponentWeights (rowWeights t) (rows t) comp_isFixedHeight = Inr rw
        \<and> calcComponentWeights (colWeights t) (d3_transpose (rows t)) comp_isFixedWidth = Inr cw
        \<and> length calls = length (rows t)
        \<and> (\<forall>r<length (rows t). \<forall>c<length (rows t ! r).
              calls ! r ! c =
                ComputeLayout (rows t ! r ! c)
                  (running_offset
                     (final_sizes cw (w - total_colMinimum t)
                        (map (\<lambda>col. d3_max (map comp_colMinimum col)) (d3_transpose (rows t))))
                     (colPadding t) c)
                  (running_offset
                     (final_sizes rw (h - total_rowMinimum t)
                        (map (\<lambda>row. d3_max (map comp_rowMinimum row)) (rows t)))
                     (rowPadding t) r)
                  (js_nth
                     (final_sizes cw (w - total_colMinimum t)
                        (map (\<lambda>col. d3_max (map comp_colMinimum col)) (d3_transpose (rows t))))
                     c)
                  (js_nth
                     (final_sizes rw (h - total_rowMinimum t)
                        (map (\<lambda>row. d3_max (map comp_rowMinimum row)) (rows t)))
                     r))))
   \<and> (layout_ok t \<and> total_colMinimum t \<le> w \<and> total_rowMinimum t \<le> h \<longrightarrow>
      (\<exists>calls. fst (computeLayout x y w h t) = Inr calls
        \<and> length calls = length (rows t)
        \<and> (\<forall>r<length (rows t). \<forall>c<length (colWeights t).
              length (calls ! r) = length (colWeights t)
              \<and> calls ! r ! c =
                  ComputeLayout (rows t ! r ! c)
                    (Num (sum_list (take c (col_widths t w)) + of_nat c * colPadding t))
                    (Num (sum_list (take r (row_heights t h)) + of_nat r * rowPadding t))
                    (Num (col_widths t w ! c)) (Num (row_heights t h ! r))
              \<and> col_widths t w ! c
                  = proportional_shares (col_weights t) (w - total_colMinimum t) ! c + col_minimums t ! c
              \<and> row_heights t h ! r
                  = proportional_shares (row_weights t) (h - total_rowMinimum t) ! r + row_minimums t ! r)
        \<and> (rows t \<noteq> [] \<longrightarrow>
              sum_list (col_widths t w) + colPadding t * (of_nat (length (colWeights t)) - 1) = w
              \<and> sum_list (row_heights t h) + rowPadding t * (of_nat (length (rows t)) - 1) = h)))"
proof (intro conjI impI)
  assume r: "fst (computeLayout x y w h t) = Inr calls"
  from computeLayout_returns [OF r] obtain rw cw where
    w: "calcComponentWeights (rowWeights t) (rows t) comp_isFixedHeight = Inr rw"
      "calcComponentWeights (colWeights t) (d3_transpose (rows t)) comp_isFixedWidth = Inr cw"
    and c: "calls = layoutRows (rows t) 0 (Num 0)
        (final_sizes cw (w - total_colMinimum t)
           (map (\<lambda>col. d3_max (map comp_colMinimum col)) (d3_transpose (rows t))))
        (final_sizes rw (h - total_rowMinimum t)
           (map (\<lambda>row. d3_max (map comp_rowMinimum row)) (rows t)))
        (rowPadding t) (colPadding t)"
    by blast
  show "\<exists>rw cw.
          calcComponentWeights (rowWeights t) (rows t) comp_isFixedHeight = Inr rw
        \<and> calcComponentWeights (colWeights t) (d3_transpose (rows t)) comp_isFixedWidth = Inr cw
        \<and> length calls = length (rows t)
        \<and> (\<forall>r<length (rows t). \<forall>c<length (rows t ! r).
              calls ! r ! c =
                ComputeLayout (rows t ! r ! c)
                  (running_offset
                     (final_sizes cw (w - total_colMinimum t)
                        (map (\<lambda>col. d3_max (map comp_colMinimum col)) (d3_transpose (rows t))))
                     (colPadding t) c)
                  (running_offset
                     (final_sizes rw (h - total_rowMinimum t)
                        (map (\<lambda>row. d3_max (map comp_rowMinimum row)) (rows t)))
                     (rowPadding t) r)
                  (js_nth
                     (final_sizes cw (w - total_colMinimum t)
                        (map (\<lambda>col. d3_max (map comp_colMinimum col)) (d3_transpose (rows t))))
                     c)
                  (js_nth
                     (final_sizes rw (h - total_rowMinimum t)
                        (map (\<lambda>row. d3_max (map comp_rowMinimum row)) (rows t)))
                     r))"
    using w unfolding c by (intro exI [of _ rw] exI [of _ cw]) (simp add: layout_cell_running)
next
  assume "layout_ok t \<and> total_colMinimum t \<le> w \<and> total_rowMinimum t \<le> h"
  then show "\<exists>calls. fst (computeLayout x y w h t) = Inr calls
        \<and> length calls = length (rows t)
        \<and> (\<forall>r<length (rows t). \<forall>c<length (colWeights t).
              length (calls ! r) = length (colWeights t)
              \<and> calls ! r ! c =
                  ComputeLayout (rows t ! r ! c)
                    (Num (sum_list (take c (col_widths t w)) + of_nat c * colPadding t))
                    (Num (sum_list (take r (row_heights t h)) + of_nat r * rowPadding t))
                    (Num (col_widths t w ! c)) (Num (row_heights t h ! r))
              \<and> col_widths t w ! c
                  = proportional_shares (col_weights t) (w - total_colMinimum t) ! c + col_minimums t ! c
              \<and> row_heights t h ! r
                  = proportional_shares (row_weights t) (h - total_rowMinimum t) ! r + row_minimums t ! r)
        \<and> (rows t \<noteq> [] \<longrightarrow>
              sum_list (col_widths t w) + colPadding t * (of_nat (length (colWeights t)) - 1) = w
              \<and> sum_list (row_heights t h) + rowPadding t * (of_nat (length (rows t)) - 1) = h)"
    using layout_on_data_model [of t w h x y] by simp
qed

text \<open>
  The example table with paddings 3 and 5, laid out in 60 by 60; and the example scenario
  of the specification, with column widths 25 and 35 and row heights 20 and 40.
\<close>

theorem computeLayout_cells_witness:
  "layout_ok (padding 3 5 example_table)
   \<and> total_colMinimum (padding 3 5 example_table) \<le> 60
   \<and> total_rowMinimum (padding 3 5 example_table) \<le> 60
   \<and> fst (computeLayout 0 0 60 60 (padding 3 5 example_table))
       = Inr [[ComputeLayout leafA (Num 0) (Num 0) (Num (45 / 2)) (Num 27),
               ComputeLayout leafB (Num (55 / 2)) (Num 0) (Num (65 / 2)) (Num 27)],
              [ComputeLayout leafC (Num 0) (Num 30) (Num (45 / 2)) (Num 30),
               ComputeLayout leafD (Num (55 / 2)) (Num 30) (Num (65 / 2)) (Num 30)]]
   \<and> fst (computeLayout 0 0 60 60 scenario_table)
       = Inr [[ComputeLayout (flexible 10 10) (Num 0) (Num 0) (Num 25) (Num 20),
               ComputeLayout (flexible 20 10) (Num 25) (Num 0) (Num 35) (Num 20)],
              [ComputeLayout (flexible 10 30) (Num 0) (Num 20) (Num 25) (Num 40),
               ComputeLayout (flexible 20 30) (Num 25) (Num 20) (Num 35) (Num 40)]]"
proof -
  have sc: "fst (computeLayout 0 0 60 60 scenario_table)
       = Inr [[ComputeLayout (flexible 10 10) (Num 0) (Num 0) (Num 25) (Num 20),
               ComputeLayout (flexible 20 10) (Num 25) (Num 0) (Num 35) (Num 20)],
              [ComputeLayout (flexible 10 30) (Num 0) (Num 20) (Num 25) (Num 40),
               ComputeLayout (flexible 20 30) (Num 25) (Num 20) (Num 35) (Num 40)]]"
    by code_simp
  have ok: "layout_ok (padding 3 5 example_table)" by (rule layout_ok_padded_example)
  have c: "total_colMinimum (padding 3 5 example_table) = 35"
    and r: "total_rowMinimum (padding 3 5 example_table) = 43"
    by (simp_all add: total_colMinimum_def total_rowMinimum_def col_minimums_def row_minimums_def
        group_minimum_def example_table_def Table_def padding_def d3_transpose_def
        cleanOutNulls_def leafA_def leafB_def leafC_def leafD_def)
  have cw: "col_widths (padding 3 5 example_table) 60 = [45 / 2, 65 / 2]"
    and rh: "row_heights (padding 3 5 example_table) 60 = [27, 30]"
    unfolding col_widths_def row_heights_def c r
    by (simp_all add: col_weights_def row_weights_def resolved_weight_def proportional_shares_def
        col_minimums_def row_minimums_def group_minimum_def example_table_def Table_def
        padding_def d3_transpose_def cleanOutNulls_def leafA_def leafB_def leafC_def leafD_def)
  have rs: "rows (padding 3 5 example_table) = [[leafA, leafB], [leafC, leafD]]"
    "colWeights (padding 3 5 example_table) = [Null, Null]"
    "rowPadding (padding 3 5 example_table) = 3" "colPadding (padding 3 5 example_table) = 5"
    by (simp_all add: example_table_def Table_def padding_def d3_transpose_def cleanOutNulls_def)
  have "\<exists>calls. fst (computeLayout 0 0 60 60 (padding 3 5 example_table)) = Inr calls
          \<and> length calls = length (rows (padding 3 5 example_table))"
    using computeLayout_cells
        [where x = 0 and y = 0 and w = 60 and h = 60 and t = "padding 3 5 example_table",
          THEN conjunct2]
      ok c r
    by auto
  moreover have "fst (computeLayout 0 0 60 60 (padding 3 5 example_table))
       = Inr [[ComputeLayout leafA (Num 0) (Num 0) (Num (45 / 2)) (Num 27),
               ComputeLayout leafB (Num (55 / 2)) (Num 0) (Num (65 / 2)) (Num 27)],
              [ComputeLayout leafC (Num 0) (Num 30) (Num (45 / 2)) (Num 30),
               ComputeLayout leafD (Num (55 / 2)) (Num 30) (Num (65 / 2)) (Num 30)]]"
    by (simp add: computeLayout_ok [OF ok] c r cw rh rs js_nth_def)
  ultimately show ?thesis using ok c r sc by simp
qed

text \<open>
  C6 (amended). Let the table be unanchored, with counters that cover its grid (as they do
  after the constructor and after every \<open>addComponent\<close>). After \<open>addComponent(row, col,
  component)\<close>, also when it throws because the cell is occupied: every row has the same
  length, at least \<open>col + 1\<close>; there are at least \<open>row + 1\<close> rows; neither count is smaller
  than before; every slot other than \<open>(row, col)\<close> keeps its component if it existed and
  holds a placeholder if it is new; every new row has an unset weight; and a column's
  weight entry is unset if none was stored at its index, and is the stored one otherwise.
\<close>

theorem addComponent_grid:
  assumes "element t = None" "counters_cover t"
  shows "(\<forall>r\<in>set (rows (snd (addComponent row col c t))). length r = max col (nCols t) + 1)
   \<and> row + 1 \<le> length (rows (snd (addComponent row col c t)))
   \<and> col + 1 \<le> max col (nCols t) + 1
   \<and> length (rows t) \<le> length (rows (snd (addComponent row col c t)))
   \<and> (\<forall>r\<in>set (rows t). length r \<le> max col (nCols t) + 1)
   \<and> (\<forall>i<length (rows (snd (addComponent row col c t))). \<forall>j<max col (nCols t) + 1.
         (i, j) \<noteq> (row, col) \<longrightarrow>
         rows (snd (addComponent row col c t)) ! i ! j
           = (if i < length (rows t) \<and> j < length (rows t ! i) then rows t ! i ! j
              else new_Component))
   \<and> (\<forall>i<length (rows (snd (addComponent row col c t))).
         length (rows t) \<le> i \<longrightarrow> js_nth (rowWeights (snd (addComponent row col c t))) i = Null)
   \<and> (\<forall>j<max col (nCols t) + 1.
         js_nth (colWeights (snd (addComponent row col c t))) j
           = (if js_nth (colWeights t) j = Undefined then Null else js_nth (colWeights t) j))
   \<and> counters_cover (snd (addComponent row col c t))"
proof -
  let ?t' = "snd (addComponent row col c t)"
  note e = assms(1)
  have len: "length (rows ?t') = max row (nRows t) + 1"
    using assms by (simp add: addComponent_shape grown_cover)
  have width: "length (rows ?t' ! i) = max col (nCols t) + 1" if "i < length (rows ?t')" for i
    using that assms len by (simp add: addComponent_shape grown_cover)
  have rect: "\<forall>r\<in>set (rows ?t'). length r = max col (nCols t) + 1"
    using width by (auto simp add: in_set_conv_nth)
  have old: "length (rows t) \<le> max row (nRows t) + 1"
    "\<forall>r\<in>set (rows t). length r \<le> max col (nCols t) + 1"
    using assms(2) by (auto simp add: counters_cover_def max_def)
  have slots: "rows ?t' ! i ! j
           = (if i < length (rows t) \<and> j < length (rows t ! i) then rows t ! i ! j
              else new_Component)"
    if "i < length (rows ?t')" "j < max col (nCols t) + 1" "(i, j) \<noteq> (row, col)" for i j
  proof -
    have "rows ?t' ! i ! j = rows (grown row col t) ! i ! j"
      using e that(3) by (rule addComponent_other_slots)
    also have "\<dots> = (if i < length (rows t) \<and> j < length (rows t ! i) then rows t ! i ! j
              else new_Component)"
      using that(1,2) width [OF that(1)] e by (intro grown_slot) (simp_all add: addComponent_shape)
    finally show ?thesis .
  qed
  have rw: "js_nth (rowWeights ?t') i = Null" if "i < length (rows ?t')" "length (rows t) \<le> i" for i
    using that len e by (simp add: addComponent_weights grown_rowWeights)
  have cw: "js_nth (colWeights ?t') j
           = (if js_nth (colWeights t) j = Undefined then Null else js_nth (colWeights t) j)"
    if "j < max col (nCols t) + 1" for j
    using that e by (simp add: addComponent_weights grown_colWeights)
  show ?thesis
    using rect len old slots rw cw counters_cover_addComponent [OF assms]
    by (auto simp del: One_nat_def)
qed

text \<open>
  The example table, where cell \<open>(0, 0)\<close> is occupied: the call throws, and the grid has
  grown to three by three with placeholders and unset weights all the same.
\<close>

theorem addComponent_grid_witness:
  "element example_table = None \<and> counters_cover example_table
   \<and> fst (addComponent 0 0 leafB example_table) = Inl CellOccupied
   \<and> rows (snd (addComponent 0 0 leafB example_table))
       = [[leafA, leafB, new_Component], [leafC, leafD, new_Component],
          [new_Component, new_Component, new_Component]]
   \<and> rowWeights (snd (addComponent 0 0 leafB example_table)) = [Null, Null, Null]
   \<and> colWeights (snd (addComponent 0 0 leafB example_table)) = [Null, Null, Null]"
proof -
  have h: "element example_table = None" "counters_cover example_table"
    by (simp_all add: example_table_def counters_cover_Table)
  have "\<forall>r\<in>set (rows (snd (addComponent 0 0 leafB example_table))).
          length r = max 0 (nCols example_table) + 1"
    using addComponent_grid [OF h, of 0 0 leafB] by blast
  moreover have "fst (addComponent 0 0 leafB example_table) = Inl CellOccupied"
    "rows (snd (addComponent 0 0 leafB example_table))
       = [[leafA, leafB, new_Component], [leafC, leafD, new_Component],
          [new_Component, new_Component, new_Component]]"
    "rowWeights (snd (addComponent 0 0 leafB example_table)) = [Null, Null, Null]"
    "colWeights (snd (addComponent 0 0 leafB example_table)) = [Null, Null, Null]"
    by code_simp+
  ultimately show ?thesis using h by simp
qed

text \<open>
  C6 as stated fails for a column whose weight was set before the column existed: on an
  empty table, \<open>colWeight(0, 3)\<close> and then \<open>addComponent(0, 0, leafA)\<close> create column 0 with
  weight 3, not with an unset weight. (The slot the call creates at \<open>(0, 0)\<close> holds the
  component, not a placeholder.)
\<close>

theorem addComponent_column_weight_counterexample:
  "rows (colWeight 0 3 (Table [])) = []
   \<and> fst (addComponent 0 0 leafA (colWeight 0 3 (Table []))) = Inr ()
   \<and> rows (snd (addComponent 0 0 leafA (colWeight 0 3 (Table [])))) = [[leafA]]
   \<and> colWeights (snd (addComponent 0 0 leafA (colWeight 0 3 (Table [])))) = [Num 3]
   \<and> colWeights (snd (addComponent 0 0 leafA (colWeight 0 3 (Table [])))) \<noteq> [Null]"
  by code_simp

text \<open>
  C7. The constructor replaces every \<^verbatim>\<open>null\<close> entry with a placeholder and keeps every row at
  the length it is given: it does not pad. On the jagged input of one row of one cell and
  one row of two, the rows keep lengths 1 and 2, while \<^verbatim>\<open>nCols\<close> is 2 and there is a single
  column weight.
\<close>

theorem Table_rows_not_padded:
  "rows (Table rows0) = map (map cleanOutNulls) rows0
   \<and> cleanOutNulls None = new_Component \<and> cleanOutNulls (Some c) = c
   \<and> map length (rows (Table rows0)) = map length rows0
   \<and> rows (Table [[Some leafA], [None, Some leafB]]) = [[leafA], [new_Component, leafB]]
   \<and> map length (rows (Table [[Some leafA], [None, Some leafB]])) = [1, 2]
   \<and> nCols (Table [[Some leafA], [None, Some leafB]]) = 2
   \<and> colWeights (Table [[Some leafA], [None, Some leafB]]) = [Null]"
proof -
  have "rows (Table [[Some leafA], [None, Some leafB]]) = [[leafA], [new_Component, leafB]]"
    "map length (rows (Table [[Some leafA], [None, Some leafB]])) = [1, 2]"
    "nCols (Table [[Some leafA], [None, Some leafB]]) = 2"
    "colWeights (Table [[Some leafA], [None, Some leafB]]) = [Null]"
    by code_simp+
  moreover have "map length (rows (Table rows0)) = map length rows0"
    by (simp add: comp_def)
  ultimately show ?thesis by (simp add: cleanOutNulls_def)
qed

text \<open>
  C8. \<open>addComponent\<close> on an anchored table throws the mutation error before anything else
  and leaves the table as it is. On an unanchored table it throws the occupied-cell error
  when the slot exists and holds a component that is not a placeholder, and leaves that
  component in place; otherwise it returns, with the component in slot \<open>(row, col)\<close>, and if
  the component is not itself a placeholder a second \<open>addComponent\<close> at the same slot throws
  the occupied-cell error.
\<close>

theorem addComponent_checks:
  "(element t \<noteq> None \<longrightarrow> addComponent row col c t = (Inl InvalidMutation, t))
   \<and> (element t = None \<and> row < length (rows t) \<and> col < length (rows t ! row)
        \<and> \<not> isBaseComponent (rows t ! row ! col)
      \<longrightarrow> fst (addComponent row col c t) = Inl CellOccupied
          \<and> rows (snd (addComponent row col c t)) ! row ! col = rows t ! row ! col)
   \<and> (element t = None
        \<and> \<not> (row < length (rows t) \<and> col < length (rows t ! row)
              \<and> \<not> isBaseComponent (rows t ! row ! col))
      \<longrightarrow> fst (addComponent row col c t) = Inr ()
          \<and> rows (snd (addComponent row col c t)) ! row ! col = c
          \<and> (\<not> isBaseComponent c \<longrightarrow>
                fst (addComponent row col c' (snd (addComponent row col c t))) = Inl CellOccupied))"
proof (intro conjI impI)
  assume "element t \<noteq> None"
  then show "addComponent row col c t = (Inl InvalidMutation, t)" by (rule addComponent_anchored)
next
  assume a: "element t = None \<and> row < length (rows t) \<and> col < length (rows t ! row)
        \<and> \<not> isBaseComponent (rows t ! row ! col)"
  then have eq: "addComponent row col c t = (Inl CellOccupied, grown row col t)"
    by (simp add: addComponent_occupied)
  show "fst (addComponent row col c t) = Inl CellOccupied" by (simp add: eq)
  show "rows (snd (addComponent row col c t)) ! row ! col = rows t ! row ! col"
    using a by (simp add: eq grown_target(3))
next
  assume a: "element t = None
        \<and> \<not> (row < length (rows t) \<and> col < length (rows t ! row)
              \<and> \<not> isBaseComponent (rows t ! row ! col))"
  then have e: "element t = None" and f: "\<not> (row < length (rows t) \<and> col < length (rows t ! row)
              \<and> \<not> isBaseComponent (rows t ! row ! col))" by simp_all
  show "fst (addComponent row col c t) = Inr ()" by (rule addComponent_free(1) [OF e f])
  show "rows (snd (addComponent row col c t)) ! row ! col = c" by (rule addComponent_free(2) [OF e f])
  assume "\<not> isBaseComponent c"
  then show "fst (addComponent row col c' (snd (addComponent row col c t))) = Inl CellOccupied"
    using addComponent_free(2,3,4,5) [OF e f, of c]
    by (simp add: addComponent_occupied)
qed

text \<open>
  On the example table: anchored, the call is refused; cell \<open>(0, 0)\<close> is occupied; cell
  \<open>(0, 2)\<close> is free, takes the component, and refuses a second one.
\<close>

theorem addComponent_checks_witness:
  "addComponent 0 0 leafA (anchor (Selection 0) example_table)
     = (Inl InvalidMutation, anchor (Selection 0) example_table)
   \<and> fst (addComponent 0 0 leafB example_table) = Inl CellOccupied
   \<and> fst (addComponent 0 2 leafB example_table) = Inr ()
   \<and> rows (snd (addComponent 0 2 leafB example_table)) ! 0 ! 2 = leafB
   \<and> fst (addComponent 0 2 leafC (snd (addComponent 0 2 leafB example_table))) = Inl CellOccupied"
  using addComponent_checks [of "anchor (Selection 0) example_table" 0 0 leafA]
    addComponent_checks [of example_table 0 0 leafB]
    addComponent_checks [of example_table 0 2 leafB leafC]
  by (simp add: anchor_def example_table_def cleanOutNulls_def leafA_def leafB_def)

text \<open>
  C10 (amended). On an unanchored table whose counters cover its grid, \<open>addComponent(row, col,
  component)\<close> leaves exactly \<open>max(row, nRows) + 1\<close> rows of exactly \<open>max(col, nCols) + 1\<close> slots,
  also when it then throws. The constructor sets \<^verbatim>\<open>nRows\<close> to the number of initial rows and
  \<^verbatim>\<open>nCols\<close> to the largest initial row length, so the first call on a constructed table
  leaves one row more than \<open>(row, col)\<close> and the initial grid need exactly when \<open>row\<close> is
  below the initial number of rows, and one column more exactly when \<open>col\<close> is below the
  largest initial row length.
\<close>

theorem addComponent_growth:
  "(element t = None \<and> counters_cover t \<longrightarrow>
      length (rows (snd (addComponent row col c t))) = max row (nRows t) + 1
      \<and> (\<forall>r\<in>set (rows (snd (addComponent row col c t))). length r = max col (nCols t) + 1))
   \<and> nRows (Table rows0) = length rows0
   \<and> nCols (Table rows0) = d3_max_length rows0
   \<and> (\<forall>r\<in>set rows0. length r \<le> d3_max_length rows0)
   \<and> length (rows (snd (addComponent row col c (Table rows0))))
       = max (row + 1) (length rows0) + (if row < length rows0 then 1 else 0)
   \<and> (\<forall>r\<in>set (rows (snd (addComponent row col c (Table rows0)))).
        length r = max (col + 1) (d3_max_length rows0) + (if col < d3_max_length rows0 then 1 else 0))"
proof -
  have gen: "length (rows (snd (addComponent row col c t))) = max row (nRows t) + 1
      \<and> (\<forall>r\<in>set (rows (snd (addComponent row col c t))). length r = max col (nCols t) + 1)"
    if e: "element t = None" and cc: "counters_cover t" for t
  proof -
    let ?t' = "snd (addComponent row col c t)"
    have len: "length (rows ?t') = max row (nRows t) + 1"
      using e cc by (simp add: addComponent_shape grown_cover)
    have "length (rows ?t' ! i) = max col (nCols t) + 1" if "i < length (rows ?t')" for i
      using that e cc len by (simp add: addComponent_shape grown_cover)
    then show ?thesis using len by (auto simp add: in_set_conv_nth)
  qed
  have "length (rows (snd (addComponent row col c (Table rows0)))) = max row (length rows0) + 1"
    "\<forall>r\<in>set (rows (snd (addComponent row col c (Table rows0)))). length r = max col (d3_max_length rows0) + 1"
    using gen [of "Table rows0"] counters_cover_Table [of rows0] by simp_all
  then have "length (rows (snd (addComponent row col c (Table rows0))))
       = max (row + 1) (length rows0) + (if row < length rows0 then 1 else 0)"
    "\<forall>r\<in>set (rows (snd (addComponent row col c (Table rows0)))).
        length r = max (col + 1) (d3_max_length rows0) + (if col < d3_max_length rows0 then 1 else 0)"
    by (auto simp add: max_def)
  then show ?thesis using gen [of t] d3_max_length_ge [of _ rows0] by simp
qed

text \<open>
  The example table is two by two: a call at \<open>(0, 0)\<close> throws and leaves three rows of three
  slots; a call at \<open>(5, 0)\<close> leaves six rows, no more than row 5 needs.
\<close>

theorem addComponent_growth_witness:
  "element example_table = None \<and> counters_cover example_table
   \<and> map length (rows (snd (addComponent 0 0 leafB example_table))) = [3, 3, 3]
   \<and> fst (addComponent 0 0 leafB example_table) = Inl CellOccupied
   \<and> map length (rows (snd (addComponent 5 0 leafB example_table))) = [3, 3, 3, 3, 3, 3]"
proof -
  have h: "element example_table = None \<and> counters_cover example_table"
    by (simp add: example_table_def counters_cover_Table)
  have "length (rows (snd (addComponent 0 0 leafB example_table))) = max 0 (nRows example_table) + 1"
    using addComponent_growth [of example_table 0 0 leafB] h by blast
  moreover have "map length (rows (snd (addComponent 0 0 leafB example_table))) = [3, 3, 3]"
    "fst (addComponent 0 0 leafB example_table) = Inl CellOccupied"
    "map length (rows (snd (addComponent 5 0 leafB example_table))) = [3, 3, 3, 3, 3, 3]"
    by code_simp+
  ultimately show ?thesis using h by simp
qed

text \<open>
  C10 as stated fails when the cell lies outside the initial grid: on a table constructed
  with one cell, \<open>addComponent(1, 1, leafB)\<close> leaves two rows of two slots, which is what
  cell \<open>(1, 1)\<close> needs and no more.
\<close>

theorem addComponent_no_extra_counterexample:
  "rows (Table [[Some leafA]]) = [[leafA]]
   \<and> fst (addComponent 1 1 leafB (Table [[Some leafA]])) = Inr ()
   \<and> rows (snd (addComponent 1 1 leafB (Table [[Some leafA]])))
       = [[leafA, new_Component], [new_Component, leafB]]
   \<and> length (rows (snd (addComponent 1 1 leafB (Table [[Some leafA]])))) = 1 + 1"
  by code_simp

end
